theory Spec2Isabelle
  imports Complex_Main "HOL-Library.Sublist"
begin

section \<open>Asynchronous actions that may reject\<close>

text \<open>
  Every \<^verbatim>\<open>async\<close> method of the page objects is a function from the state of the browser
  session to its outcome and the state it leaves behind. A rejected promise (a thrown
  exception) is \<open>Inl\<close> of the error, a fulfilled one is \<open>Inr\<close> of the value. The state
  is threaded through failures too: a wait that times out has let time pass.
\<close>

datatype error =
    TimeoutError          \<comment> \<open>a bounded wait of the browser library ran out\<close>
  | ExpectError           \<comment> \<open>an \<^verbatim>\<open>expect(...)\<close> assertion did not hold\<close>
  | JsError string        \<comment> \<open>any other thrown \<^verbatim>\<open>Error(message)\<close>\<close>

type_synonym ('w, 'a) action = "'w \<Rightarrow> (error + 'a) \<times> 'w"

definition return_io :: "'a \<Rightarrow> ('w, 'a) action" where
  "return_io x w = (Inr x, w)"

definition throw_io :: "error \<Rightarrow> ('w, 'a) action" where
  "throw_io e w = (Inl e, w)"

definition bind_io :: "('w, 'a) action \<Rightarrow> ('a \<Rightarrow> ('w, 'b) action) \<Rightarrow> ('w, 'b) action" where
  "bind_io m f w = (case m w of (Inl e, w') \<Rightarrow> (Inl e, w') | (Inr x, w') \<Rightarrow> f x w')"

definition then_io :: "('w, 'a) action \<Rightarrow> ('w, 'b) action \<Rightarrow> ('w, 'b) action" where
  "then_io m k = bind_io m (\<lambda>_. k)"

definition try_catch :: "('w, 'a) action \<Rightarrow> (error \<Rightarrow> ('w, 'a) action) \<Rightarrow> ('w, 'a) action" where
  "try_catch m h w = (case m w of (Inl e, w') \<Rightarrow> h e w' | (Inr x, w') \<Rightarrow> (Inr x, w'))"

section \<open>JavaScript built-ins\<close>

text \<open>
  A JavaScript number that came out of \<^verbatim>\<open>parseInt\<close> is an integer or \<^verbatim>\<open>NaN\<close>. The built-ins
  \<^verbatim>\<open>String.prototype.trim\<close>, \<^verbatim>\<open>parseInt\<close> and \<^verbatim>\<open>Number.prototype.toString\<close> are parameters
  of the model; \<^verbatim>\<open>String.prototype.includes\<close> is substring search.
\<close>

datatype js_number = NaN | Num int

record js_builtins =
  trim :: "string \<Rightarrow> string"
  parseInt :: "string \<Rightarrow> js_number"
  numberToString :: "int \<Rightarrow> string"

fun str_includes :: "string \<Rightarrow> string \<Rightarrow> bool" where
  "str_includes [] sub = (sub = [])"
| "str_includes (c # cs) sub = (prefix sub (c # cs) \<or> str_includes cs sub)"

text \<open>
  A JavaScript number is a double: a finite value, an infinity or \<^verbatim>\<open>NaN\<close>. Finite values
  are kept as reals. The arithmetic is the one \<open>retry\<close> uses: \<^verbatim>\<open>Math.pow(2, i)\<close> is exact up
  to \<open>i = 1023\<close> and \<^verbatim>\<open>Infinity\<close> from \<open>i = 1024\<close> on; a product with a power of two is exact
  unless it reaches \<open>2 ^ 1024\<close>, where it becomes an infinity (the rounding of other
  products is not modelled); an infinity times zero is \<^verbatim>\<open>NaN\<close>; every comparison with
  \<^verbatim>\<open>NaN\<close> is false; subtracting 1 is exact up to \<open>2 ^ 53\<close>; and a counter that has
  reached \<open>2 ^ 53\<close> is not changed by \<^verbatim>\<open>i++\<close>.
\<close>

datatype number = Finite real | PosInfinity | NegInfinity | NotANumber

definition js_pow2 :: "nat \<Rightarrow> number" where
  \<comment> \<open>\<^verbatim>\<open>Math.pow(2, i)\<close> for a counter \<open>i\<close>\<close>
  "js_pow2 i = (if i < 1024 then Finite (2 ^ i) else PosInfinity)"

definition overflow :: "real \<Rightarrow> number" where
  "overflow x =
     (if 2 ^ 1024 \<le> x then PosInfinity else if x \<le> - (2 ^ 1024) then NegInfinity else Finite x)"

fun js_times :: "number \<Rightarrow> number \<Rightarrow> number" where
  "js_times (Finite a) (Finite b) = overflow (a * b)"
| "js_times (Finite a) PosInfinity =
     (if a = 0 then NotANumber else if 0 < a then PosInfinity else NegInfinity)"
| "js_times (Finite a) NegInfinity =
     (if a = 0 then NotANumber else if 0 < a then NegInfinity else PosInfinity)"
| "js_times PosInfinity (Finite b) =
     (if b = 0 then NotANumber else if 0 < b then PosInfinity else NegInfinity)"
| "js_times NegInfinity (Finite b) =
     (if b = 0 then NotANumber else if 0 < b then NegInfinity else PosInfinity)"
| "js_times PosInfinity PosInfinity = PosInfinity"
| "js_times PosInfinity NegInfinity = NegInfinity"
| "js_times NegInfinity PosInfinity = NegInfinity"
| "js_times NegInfinity NegInfinity = PosInfinity"
| "js_times NotANumber _ = NotANumber"
| "js_times _ NotANumber = NotANumber"

fun js_minus_one :: "number \<Rightarrow> number" where
  "js_minus_one (Finite m) = Finite (m - 1)"
| "js_minus_one x = x"

fun js_less :: "number \<Rightarrow> number \<Rightarrow> bool" where
  "js_less (Finite a) (Finite b) = (a < b)"
| "js_less (Finite a) PosInfinity = True"
| "js_less NegInfinity (Finite b) = True"
| "js_less NegInfinity PosInfinity = True"
| "js_less _ _ = False"

fun js_strict_equal :: "number \<Rightarrow> number \<Rightarrow> bool" where
  "js_strict_equal NotANumber _ = False"
| "js_strict_equal _ NotANumber = False"
| "js_strict_equal a b = (a = b)"

definition increment :: "nat \<Rightarrow> nat" where
  \<comment> \<open>\<^verbatim>\<open>i++\<close> on a counter that started at 0\<close>
  "increment i = (if i < 2 ^ 53 then i + 1 else i)"

section \<open>The page's own document\<close>

text \<open>
  A function given to \<^verbatim>\<open>page.waitForFunction\<close> runs inside the page and sees the DOM, not
  the browser library. An element is its attributes; the document answers
  \<^verbatim>\<open>document.querySelector\<close>. The DOM accepts CSS only: \<^verbatim>\<open>:has-text(...)\<close> belongs to the selector
  engine of the browser library, and the DOM rejects a selector list that holds such an
  entry, as a whole, with a \<^verbatim>\<open>SyntaxError\<close>.
\<close>

record element =
  attributes :: "(string \<times> string) list"

definition hasAttribute :: "element \<Rightarrow> string \<Rightarrow> bool" where
  "hasAttribute el name = (map_of (attributes el) name \<noteq> None)"

definition getAttribute :: "element \<Rightarrow> string \<Rightarrow> string option" where
  "getAttribute el name = map_of (attributes el) name"

record browser_document =
  firstMatch :: "string list \<Rightarrow> element option"
    \<comment> \<open>the first element, in document order, that matches a selector list of CSS\<close>

definition library_only :: "string \<Rightarrow> bool" where
  "library_only entry = str_includes entry '':has-text(''"

definition querySelector :: "browser_document \<Rightarrow> string list \<Rightarrow> error + element option" where
  "querySelector doc selectors =
     (if list_ex library_only selectors then Inl (JsError ''SyntaxError'')
      else Inr (firstMatch doc selectors))"

section \<open>The browser library, as the page objects use it\<close>

text \<open>
  A locator is the description of how to find elements, not an element. The argument of
  \<^verbatim>\<open>page.locator\<close> is a comma-separated selector list; it is kept as the list of its
  entries, in the order they are written.
\<close>

datatype locator =
    Css "string list"                \<comment> \<open>\<^verbatim>\<open>page.locator('a, b, c')\<close>\<close>
  | First locator                    \<comment> \<open>\<^verbatim>\<open>.first()\<close>\<close>
  | Nth locator nat                  \<comment> \<open>\<^verbatim>\<open>.nth(i)\<close>\<close>
  | Within locator "string list"     \<comment> \<open>\<^verbatim>\<open>locator.locator('a, b')\<close>\<close>

datatype wait_state = Attached | Visible

datatype load_state = DomContentLoaded | NetworkIdle

datatype url_pattern =
    Containing string                \<comment> \<open>the regular expression \<^verbatim>\<open>/.*s.*/\<close> for a literal \<open>s\<close>\<close>

text \<open>
  The calls into the browser library are parameters of the model: each takes the call's
  arguments and the session state, and settles with a value or an error.
\<close>

record 'w playwright =
  waitFor :: "locator \<Rightarrow> wait_state \<Rightarrow> nat \<Rightarrow> ('w, unit) action"
  click :: "locator \<Rightarrow> bool \<Rightarrow> ('w, unit) action"
  fill :: "locator \<Rightarrow> string \<Rightarrow> ('w, unit) action"
  count :: "locator \<Rightarrow> ('w, nat) action"
  textContent :: "locator \<Rightarrow> ('w, string option) action"
  expectToHaveURL :: "url_pattern \<Rightarrow> ('w, unit) action"
  expectToBeVisible :: "locator \<Rightarrow> ('w, unit) action"
  waitForLoadState :: "load_state \<Rightarrow> ('w, unit) action"
  waitForSelector :: "string list \<Rightarrow> nat \<Rightarrow> ('w, unit) action"
  pollStates :: "nat \<Rightarrow> 'w \<Rightarrow> 'w list"
  pageDocument :: "'w \<Rightarrow> browser_document"
  pageGoto :: "string \<Rightarrow> ('w, unit) action"
  consoleLog :: "string \<Rightarrow> 'w \<Rightarrow> 'w"

text \<open>
  \<^verbatim>\<open>page.waitForFunction\<close> evaluates the given function in the page again and again: it
  fulfils when an evaluation returns a truthy value, rejects when an evaluation throws,
  and rejects with a timeout when the time is up. The session states at which it
  evaluates within the given time are the parameter \<open>pollStates\<close>; \<open>pageDocument\<close> is
  the document of a session state.
\<close>

fun poll ::
  "'w playwright \<Rightarrow> (browser_document \<Rightarrow> error + bool) \<Rightarrow> 'w \<Rightarrow> 'w list \<Rightarrow> (error + unit) \<times> 'w" where
  "poll env f w [] = (Inl TimeoutError, w)"
| "poll env f w (w1 # rest) =
     (case f (pageDocument env w1) of
        Inl e \<Rightarrow> (Inl e, w1)
      | Inr True \<Rightarrow> (Inr (), w1)
      | Inr False \<Rightarrow> poll env f w1 rest)"

definition waitForFunction ::
  "'w playwright \<Rightarrow> (browser_document \<Rightarrow> error + bool) \<Rightarrow> nat \<Rightarrow> ('w, unit) action" where
  "waitForFunction env f timeout w = poll env f w (pollStates env timeout w)"

definition log_io :: "'w playwright \<Rightarrow> string \<Rightarrow> ('w, unit) action" where
  "log_io env msg w = (Inr (), consoleLog env msg w)"

definition expectToBe :: "bool \<Rightarrow> bool \<Rightarrow> ('w, unit) action" where
  "expectToBe actual expected = (if actual = expected then return_io () else throw_io ExpectError)"

section \<open>BasePage\<close>

definition waitForPageLoad :: "'w playwright \<Rightarrow> ('w, unit) action" where
  "waitForPageLoad env = waitForLoadState env DomContentLoaded"

definition waitForElement :: "'w playwright \<Rightarrow> locator \<Rightarrow> nat \<Rightarrow> ('w, unit) action" where
  "waitForElement env l timeout = waitFor env l Visible timeout"

definition safeClick :: "'w playwright \<Rightarrow> locator \<Rightarrow> ('w, unit) action" where
  "safeClick env l = then_io (waitForElement env l 5000) (click env l False)"

definition safeFill :: "'w playwright \<Rightarrow> locator \<Rightarrow> string \<Rightarrow> ('w, unit) action" where
  "safeFill env l text = then_io (waitForElement env l 5000) (fill env l text)"

definition elementExists :: "'w playwright \<Rightarrow> locator \<Rightarrow> ('w, bool) action" where
  "elementExists env l =
     try_catch (then_io (waitFor env l Attached 2000) (return_io True))
               (\<lambda>_. return_io False)"

definition verifyPageLoaded :: "'w playwright \<Rightarrow> url_pattern \<Rightarrow> ('w, unit) action" where
  "verifyPageLoaded env urlPattern = expectToHaveURL env urlPattern"

section \<open>TestHelpers\<close>

definition TestHelpers_elementExists :: "'w playwright \<Rightarrow> string list \<Rightarrow> nat \<Rightarrow> ('w, bool) action" where
  "TestHelpers_elementExists env selector timeout =
     try_catch (then_io (waitFor env (Css selector) Attached timeout) (return_io True))
               (\<lambda>_. return_io False)"

definition TestHelpers_elementExists_default :: "'w playwright \<Rightarrow> string list \<Rightarrow> ('w, bool) action" where
  "TestHelpers_elementExists_default env selector = TestHelpers_elementExists env selector 5000"

section \<open>HomePage\<close>

definition productList :: locator where
  \<open>productList = Css [''[data-testid="product-list"]'', ''.product-list'', ''main'']\<close>

definition productCards :: locator where
  \<open>productCards = Css [''[data-testid="product-card"]'', ''.product-card'', ''[href*="/products/"]'']\<close>

definition cartBadge :: locator where
  \<open>cartBadge = Css [''[data-testid="cart-badge"]'', ''.cart-badge'', ''.cart-count'']\<close>

definition HomePage_goto :: "'w playwright \<Rightarrow> ('w, unit) action" where
  "HomePage_goto env = then_io (pageGoto env ''/'') (waitForPageLoad env)"

definition verifyHomepageLoaded :: "'w playwright \<Rightarrow> ('w, unit) action" where
  "verifyHomepageLoaded env =
     then_io (expectToHaveURL env (Containing ''localhost:3000''))
    (then_io (expectToBeVisible env productList)
    (bind_io (elementExists env (First productCards)) (\<lambda>hasProducts.
     bind_io (elementExists env productList) (\<lambda>hasMainContent.
     expectToBe (hasProducts \<or> hasMainContent) True))))"

definition getFirstProduct :: locator where
  "getFirstProduct = First productCards"

definition productByName_entries :: "string \<Rightarrow> string list" where
  \<open>productByName_entries productName =
     [''[data-testid="product-card"]:has-text("'' @ productName @ ''")'',
      ''.product-card:has-text("'' @ productName @ ''")'',
      ''[href*="/products/"]:has-text("'' @ productName @ ''")'']\<close>

definition getProductByName :: "string \<Rightarrow> locator" where
  "getProductByName productName = First (Css (productByName_entries productName))"

definition getCartBadgeCount :: "js_builtins \<Rightarrow> 'w playwright \<Rightarrow> ('w, js_number) action" where
  "getCartBadgeCount js env =
     try_catch
       (bind_io (textContent env cartBadge) (\<lambda>badgeText.
          return_io (case badgeText of
                       None \<Rightarrow> Num 0
                     | Some t \<Rightarrow> if t \<noteq> [] then parseInt js (trim js t) else Num 0)))
       (\<lambda>_. return_io (Num 0))"

section \<open>CartPage\<close>

definition cartItems :: locator where
  \<open>cartItems = Css [''[data-testid="cart-item"]'', ''.cart-item'', ''.cart-line-item'']\<close>

definition emptyCartMessage :: locator where
  \<open>emptyCartMessage =
     Css [''[data-testid="empty-cart"]'', ''.empty-cart'', '':has-text("empty")'', '':has-text("no items")'']\<close>

definition CartPage_goto :: "'w playwright \<Rightarrow> ('w, unit) action" where
  "CartPage_goto env = then_io (pageGoto env ''/cart'') (waitForPageLoad env)"

definition verifyCartPageLoaded :: "'w playwright \<Rightarrow> ('w, unit) action" where
  "verifyCartPageLoaded env =
     then_io (expectToHaveURL env (Containing ''/cart'')) (waitForPageLoad env)"

definition getCartItemsCount :: "'w playwright \<Rightarrow> ('w, nat) action" where
  "getCartItemsCount env = try_catch (count env cartItems) (\<lambda>_. return_io 0)"

definition isCartEmpty :: "'w playwright \<Rightarrow> ('w, bool) action" where
  "isCartEmpty env =
     bind_io (elementExists env emptyCartMessage) (\<lambda>shown.
       if shown then return_io True
       else bind_io (getCartItemsCount env) (\<lambda>itemCount. return_io (itemCount = 0)))"

section \<open>CheckoutPage\<close>

definition CheckoutPage_goto :: "'w playwright \<Rightarrow> ('w, unit) action" where
  "CheckoutPage_goto env = then_io (pageGoto env ''/checkout'') (waitForPageLoad env)"

definition verifyCheckoutPageLoaded :: "'w playwright \<Rightarrow> ('w, unit) action" where
  "verifyCheckoutPageLoaded env =
     then_io (expectToHaveURL env (Containing ''/checkout'')) (waitForPageLoad env)"

section \<open>ProductPage\<close>

definition variantSelector :: locator where
  \<open>variantSelector = Css [''[data-testid="variant-selector"]'', ''.variant-selector'', ''.product-variants'']\<close>

definition sizeOptions :: locator where
  \<open>sizeOptions = Css [''[data-testid="size-option"]'', ''.size-option'', ''[data-variant-type="size"] button'']\<close>

definition addToCartButton :: locator where
  \<open>addToCartButton = Css [''[data-testid="add-to-cart"]'', ''.add-to-cart'', ''button:has-text("Add to Cart")'']\<close>

definition quantitySelector :: locator where
  \<open>quantitySelector = Css [''[data-testid="quantity"]'', ''.quantity'', ''input[type="number"]'']\<close>

text \<open>
  The selectors of \<open>selectSize\<close> are built from the requested size; each is passed to
  \<^verbatim>\<open>page.locator\<close> on its own, as a selector list of one entry.
\<close>

definition sizeSelectors :: "string \<Rightarrow> string list" where
  \<open>sizeSelectors sz =
     [''[data-testid="size-option"]:has-text("'' @ sz @ ''")'',
      ''[data-variant="size"]:has-text("'' @ sz @ ''")'',
      ''.size-option:has-text("'' @ sz @ ''")'',
      ''button:has-text("'' @ sz @ ''")'',
      ''[data-size="'' @ sz @ ''"]'',
      ''[value="'' @ sz @ ''"]'']\<close>

text \<open>
  The first loop of \<open>selectSize\<close>: the selectors are tried in list order; the value is the
  flag \<^verbatim>\<open>selected\<close> when the loop is left.
\<close>

fun selectSize_explicit :: "'w playwright \<Rightarrow> string list \<Rightarrow> ('w, bool) action" where
  "selectSize_explicit env [] = return_io False"
| "selectSize_explicit env (selector # rest) =
     bind_io (elementExists env (Css [selector])) (\<lambda>found.
       if found then then_io (safeClick env (Css [selector])) (return_io True)
       else selectSize_explicit env rest)"

text \<open>The second loop: the candidates \<^verbatim>\<open>variants.nth(i)\<close> for \<open>i\<close> from the given index on.\<close>

function selectSize_variants ::
  "'w playwright \<Rightarrow> string \<Rightarrow> locator \<Rightarrow> nat \<Rightarrow> nat \<Rightarrow> ('w, bool) action" where
  "selectSize_variants env sz variants variantCount i =
     (if i < variantCount then
        bind_io (textContent env (Nth variants i)) (\<lambda>text.
          if (case text of None \<Rightarrow> False | Some t \<Rightarrow> str_includes t sz)
          then then_io (safeClick env (Nth variants i)) (return_io True)
          else selectSize_variants env sz variants variantCount (i + 1))
      else return_io False)"
  by pat_completeness auto
termination
  by (relation "measure (\<lambda>(env, sz, variants, variantCount, i). variantCount - i)") auto

declare selectSize_variants.simps [simp del]

definition variants :: locator where
  "variants = Within variantSelector [''button'', ''select option'']"

text \<open>
  The second block of \<open>selectSize\<close>, entered when nothing is selected yet: the value is
  the flag \<^verbatim>\<open>selected\<close> after it.
\<close>

definition selectSize_generic :: "'w playwright \<Rightarrow> string \<Rightarrow> ('w, bool) action" where
  "selectSize_generic env sz =
     bind_io (elementExists env variantSelector) (\<lambda>found.
       if found then
         bind_io (count env variants) (\<lambda>variantCount.
           selectSize_variants env sz variants variantCount 0)
       else return_io False)"

definition selectSize :: "'w playwright \<Rightarrow> string \<Rightarrow> ('w, unit) action" where
  "selectSize env sz =
     bind_io (selectSize_explicit env (sizeSelectors sz)) (\<lambda>selected.
     bind_io (if \<not> selected then selectSize_generic env sz else return_io selected) (\<lambda>selected.
       if \<not> selected then
         bind_io (elementExists env (First sizeOptions)) (\<lambda>found.
           if found then safeClick env (First sizeOptions) else return_io ())
       else return_io ()))"

definition setQuantity :: "js_builtins \<Rightarrow> 'w playwright \<Rightarrow> int \<Rightarrow> ('w, unit) action" where
  "setQuantity js env quantity =
     bind_io (elementExists env quantitySelector) (\<lambda>found.
       if found then safeFill env quantitySelector (numberToString js quantity) else return_io ())"

definition clickAddToCart :: "'w playwright \<Rightarrow> ('w, unit) action" where
  "clickAddToCart env =
     then_io
       (try_catch (safeClick env addToCartButton)
          (\<lambda>error. then_io (log_io env ''Normal click failed, trying force click...'')
                           (click env addToCartButton True)))
       (try_catch (waitForSelector env [''.success'', ''.added'', ''[data-success]''] 3000)
          (\<lambda>_. log_io env ''No success indicator found, continuing...''))"

definition variantSelectors :: "string list" where
  \<open>variantSelectors =
     [''button[data-testid*="variant"]'',
      ''button[data-variant]'',
      ''.variant-option button'',
      ''.product-variants button'',
      ''[role="radiogroup"] button'',
      ''fieldset button'']\<close>

text \<open>
  The loop of \<open>selectAnyVariant\<close>. The \<^verbatim>\<open>try\<close> block yields whether the method returned
  from inside it.
\<close>

fun selectAnyVariant_loop :: "'w playwright \<Rightarrow> string list \<Rightarrow> ('w, unit) action" where
  "selectAnyVariant_loop env [] = log_io env ''No variants found to select''"
| "selectAnyVariant_loop env (selector # rest) =
     bind_io (count env (Css [selector])) (\<lambda>n.
       if n > 0 then
         bind_io (elementExists env (First (Css [selector]))) (\<lambda>found.
           if found then
             bind_io
               (try_catch
                  (then_io (safeClick env (First (Css [selector])))
                  (then_io (log_io env (''Selected variant using selector: '' @ selector))
                           (return_io True)))
                  (\<lambda>error. then_io (log_io env (''Failed to click variant with selector '' @ selector @ '':''))
                                   (return_io False)))
               (\<lambda>returned. if returned then return_io () else selectAnyVariant_loop env rest)
           else selectAnyVariant_loop env rest)
       else selectAnyVariant_loop env rest)"

definition selectAnyVariant :: "'w playwright \<Rightarrow> ('w, unit) action" where
  "selectAnyVariant env = selectAnyVariant_loop env variantSelectors"

text \<open>The function that \<open>waitForAddToCartEnabled\<close> hands to \<^verbatim>\<open>page.waitForFunction\<close>.\<close>

definition addToCartNotDisabled :: "browser_document \<Rightarrow> error + bool" where
  \<open>addToCartNotDisabled doc =
     (case querySelector doc
             [''[data-testid="add-to-cart"]'', ''.add-to-cart'', ''button:has-text("Add to Cart")''] of
        Inl e \<Rightarrow> Inl e
      | Inr None \<Rightarrow> Inr False
      | Inr (Some button) \<Rightarrow>
          Inr (\<not> hasAttribute button ''disabled''
               \<and> getAttribute button ''aria-disabled'' \<noteq> Some ''true''))\<close>

definition waitForAddToCartEnabled :: "'w playwright \<Rightarrow> ('w, unit) action" where
  "waitForAddToCartEnabled env =
     try_catch
       (then_io (waitFor env addToCartButton Visible 5000)
                (waitForFunction env addToCartNotDisabled 5000))
       (\<lambda>error. log_io env ''Add to cart button may still be disabled, trying anyway...'')"

text \<open>
  \<open>addToCartWithSpecs\<close> in two parts: the statements up to the quantity, and the gate
  followed by the click.
\<close>

definition addToCart_preparation ::
  "js_builtins \<Rightarrow> 'w playwright \<Rightarrow> string option \<Rightarrow> int \<Rightarrow> ('w, unit) action" where
  "addToCart_preparation js env sz quantity =
     then_io (selectAnyVariant env)
    (then_io (case sz of
                None \<Rightarrow> return_io ()
              | Some s \<Rightarrow>
                  if s \<noteq> [] then
                    bind_io (elementExists env sizeOptions) (\<lambda>found.
                      if found then selectSize env s else return_io ())
                  else return_io ())
             (bind_io (elementExists env quantitySelector) (\<lambda>found.
                if found then setQuantity js env quantity else return_io ())))"

definition addToCartWithSpecs ::
  "js_builtins \<Rightarrow> 'w playwright \<Rightarrow> string option \<Rightarrow> int \<Rightarrow> ('w, unit) action" where
  "addToCartWithSpecs js env sz quantity =
     then_io (addToCart_preparation js env sz quantity)
    (then_io (waitForAddToCartEnabled env)
             (clickAddToCart env))"

section \<open>GlobalTestUtils\<close>

text \<open>
  \<^verbatim>\<open>setTimeout\<close> is a parameter: the session state after a timer of the given delay. A
  timer never rejects.
\<close>

definition wait :: "(number \<Rightarrow> 'w \<Rightarrow> 'w) \<Rightarrow> number \<Rightarrow> ('w, unit) action" where
  "wait setTimeout ms w = (Inr (), setTimeout ms w)"

text \<open>
  The loop of \<open>retry\<close>, from the value \<open>i\<close> of its counter on. With \<^verbatim>\<open>maxRetries\<close> infinite
  and a function that always fails the loop never ends: the value is then \<open>None\<close>.
\<close>

partial_function (option) retry_from ::
  "(number \<Rightarrow> 'w \<Rightarrow> 'w) \<Rightarrow> ('w, 'a) action \<Rightarrow> number \<Rightarrow> number \<Rightarrow> nat \<Rightarrow> 'w
     \<Rightarrow> ((error + 'a) \<times> 'w) option" where
  "retry_from setTimeout fn maxRetries baseDelay i w =
     (if js_less (Finite (real i)) maxRetries then
        (case fn w of
           (Inr result, w1) \<Rightarrow> Some (Inr result, w1)
         | (Inl error, w1) \<Rightarrow>
             if js_strict_equal (Finite (real i)) (js_minus_one maxRetries) then Some (Inl error, w1)
             else (case wait setTimeout (js_times baseDelay (js_pow2 i)) w1 of
                     (_, w2) \<Rightarrow> retry_from setTimeout fn maxRetries baseDelay (increment i) w2))
      else Some (Inl (JsError ''Max retries exceeded''), w))"

definition retry ::
  "(number \<Rightarrow> 'w \<Rightarrow> 'w) \<Rightarrow> ('w, 'a) action \<Rightarrow> number \<Rightarrow> number \<Rightarrow> 'w
     \<Rightarrow> ((error + 'a) \<times> 'w) option" where
  "retry setTimeout fn maxRetries baseDelay w = retry_from setTimeout fn maxRetries baseDelay 0 w"

definition retry_default ::
  "(number \<Rightarrow> 'w \<Rightarrow> 'w) \<Rightarrow> ('w, 'a) action \<Rightarrow> 'w \<Rightarrow> ((error + 'a) \<times> 'w) option" where
  "retry_default setTimeout fn w = retry setTimeout fn (Finite 3) (Finite 1000) w"

section \<open>Runner scripts\<close>














section \<open>Locators against a document\<close>

text \<open>
  What the browser library resolves a locator to. A document is its nodes in document
  order, with the relation that tells which node matches which single selector and which
  node lies inside which. A comma-separated selector list is one selector: it matches
  every node that matches one of its entries, and the matches come in document order.
\<close>

record 'n document =
  nodes :: "'n list"
  matches :: "string \<Rightarrow> 'n \<Rightarrow> bool"
  inside :: "'n \<Rightarrow> 'n \<Rightarrow> bool"

definition matches_any :: "'n document \<Rightarrow> string list \<Rightarrow> 'n \<Rightarrow> bool" where
  "matches_any doc entries n = list_ex (\<lambda>e. matches doc e n) entries"

fun resolve :: "'n document \<Rightarrow> locator \<Rightarrow> 'n list" where
  "resolve doc (Css entries) = filter (matches_any doc entries) (nodes doc)"
| "resolve doc (First l) = take 1 (resolve doc l)"
| "resolve doc (Nth l i) = take 1 (drop i (resolve doc l))"
| "resolve doc (Within l entries) =
     filter (\<lambda>n. matches_any doc entries n \<and> list_ex (inside doc n) (resolve doc l)) (nodes doc)"

text \<open>
  The resolution the specification describes, for comparison: the first entry of the list
  that matches some node is chosen, and of that entry the first matching node.
\<close>

definition spec_first_entry_resolution :: "'n document \<Rightarrow> string list \<Rightarrow> 'n list" where
  "spec_first_entry_resolution doc entries =
     (case filter (\<lambda>e. list_ex (matches doc e) (nodes doc)) entries of
        [] \<Rightarrow> []
      | e # _ \<Rightarrow> take 1 (filter (matches doc e) (nodes doc)))"

section \<open>Notions used in the statements\<close>

text \<open>
  The page state is fixed when observing it does not change it: waiting for an element,
  checking the URL, checking visibility and waiting for the load state leave the session
  as it was.
\<close>

definition observations_pure :: "'w playwright \<Rightarrow> bool" where
  "observations_pure env =
     ((\<forall>l st t w. snd (waitFor env l st t w) = w)
      \<and> (\<forall>pat w. snd (expectToHaveURL env pat w) = w)
      \<and> (\<forall>l w. snd (expectToBeVisible env l w) = w)
      \<and> (\<forall>st w. snd (waitForLoadState env st w) = w))"

text \<open>
  Probing a list of locators one after the other with \<open>elementExists\<close>: the answers in
  order, and the session state after the last probe. Likewise for reading the texts of a
  list of locators.
\<close>

fun probes :: "'w playwright \<Rightarrow> locator list \<Rightarrow> 'w \<Rightarrow> bool list \<times> 'w" where
  "probes env [] w = ([], w)"
| "probes env (l # ls) w =
     (case elementExists env l w of (r, w1) \<Rightarrow>
        case probes env ls w1 of (bs, w2) \<Rightarrow> ((r = Inr True) # bs, w2))"

fun reads :: "'w playwright \<Rightarrow> locator list \<Rightarrow> 'w \<Rightarrow> (error + string option) list \<times> 'w" where
  "reads env [] w = ([], w)"
| "reads env (l # ls) w =
     (case textContent env l w of (r, w1) \<Rightarrow>
        case reads env ls w1 of (rs, w2) \<Rightarrow> (r # rs, w2))"

definition mentions :: "string \<Rightarrow> string option \<Rightarrow> bool" where
  \<comment> \<open>\<^verbatim>\<open>text?.includes(size)\<close> as a condition\<close>
  "mentions sz text = (case text of None \<Rightarrow> False | Some t \<Rightarrow> str_includes t sz)"

text \<open>
  A run of \<open>retry\<close> is observed by recording, next to the session state, every invocation
  of the function with its outcome and every timer with its delay.
\<close>

datatype 'a event = Called "error + 'a" | Slept number

definition traced_fn :: "('w, 'a) action \<Rightarrow> ('w \<times> 'a event list, 'a) action" where
  "traced_fn fn = (\<lambda>(w, tr). case fn w of (r, w') \<Rightarrow> (r, (w', tr @ [Called r])))"

definition traced_timer ::
  "(number \<Rightarrow> 'w \<Rightarrow> 'w) \<Rightarrow> number \<Rightarrow> 'w \<times> 'a event list \<Rightarrow> 'w \<times> 'a event list" where
  "traced_timer setTimeout ms = (\<lambda>(w, tr). (setTimeout ms w, tr @ [Slept ms]))"

text \<open>
  The failed attempts numbered \<open>i\<close>, \<open>i + 1\<close>, ... with the errors \<open>es\<close>, each followed by
  its back-off delay.
\<close>

fun backoff_trace :: "number \<Rightarrow> nat \<Rightarrow> error list \<Rightarrow> 'a event list" where
  "backoff_trace baseDelay i [] = []"
| "backoff_trace baseDelay i (e # es) =
     Called (Inl e) # Slept (js_times baseDelay (js_pow2 i)) # backoff_trace baseDelay (Suc i) es"

fun calls :: "'a event list \<Rightarrow> nat" where
  "calls [] = 0"
| "calls (Called r # tr) = Suc (calls tr)"
| "calls (Slept ms # tr) = calls tr"


section \<open>A scripted page for running the model\<close>

text \<open>
  A session whose page does not change by itself: what is attached, visible and clickable
  is listed, and the clicks and console lines are recorded.
\<close>

record static_page =
  sp_url :: string
  sp_loaded :: bool
  sp_attached :: "locator list"
  sp_visible :: "locator list"
  sp_clickable :: "locator list"
  sp_counts :: "(locator \<times> nat) list"
  sp_texts :: "(locator \<times> string option) list"
  sp_elements :: "(string list \<times> element) list"
  sp_clicks :: "(locator \<times> bool) list"
  sp_console :: "string list"

definition settle :: "bool \<Rightarrow> ('w, unit) action" where
  "settle ok = (if ok then return_io () else throw_io TimeoutError)"

definition static_env :: "static_page playwright" where
  "static_env = \<lparr>
     waitFor = (\<lambda>l st t p. settle (l \<in> set (case st of Attached \<Rightarrow> sp_attached p | Visible \<Rightarrow> sp_visible p)) p),
     click = (\<lambda>l force p.
        if force \<or> l \<in> set (sp_clickable p)
        then (Inr (), p\<lparr>sp_clicks := sp_clicks p @ [(l, force)]\<rparr>)
        else (Inl TimeoutError, p)),
     fill = (\<lambda>l text p. settle (l \<in> set (sp_visible p)) p),
     count = (\<lambda>l p. case map_of (sp_counts p) l of None \<Rightarrow> (Inr 0, p) | Some n \<Rightarrow> (Inr n, p)),
     textContent = (\<lambda>l p. case map_of (sp_texts p) l of None \<Rightarrow> (Inl TimeoutError, p) | Some t \<Rightarrow> (Inr t, p)),
     expectToHaveURL = (\<lambda>pat p. case pat of Containing s \<Rightarrow>
        if str_includes (sp_url p) s then (Inr (), p) else (Inl ExpectError, p)),
     expectToBeVisible = (\<lambda>l p. if l \<in> set (sp_visible p) then (Inr (), p) else (Inl ExpectError, p)),
     waitForLoadState = (\<lambda>st p. settle (sp_loaded p) p),
     waitForSelector = (\<lambda>sel t p. settle (Css sel \<in> set (sp_visible p)) p),
     pollStates = (\<lambda>t p. [p]),
     pageDocument = (\<lambda>p. \<lparr> firstMatch = map_of (sp_elements p) \<rparr>),
     pageGoto = (\<lambda>path p. (Inr (), p\<lparr>sp_url := ''http://localhost:3000'' @ path\<rparr>)),
     consoleLog = (\<lambda>msg p. p\<lparr>sp_console := sp_console p @ [msg]\<rparr>)
   \<rparr>"

definition blank_page :: static_page where
  "blank_page = \<lparr> sp_url = ''about:blank'', sp_loaded = True, sp_attached = [], sp_visible = [],
     sp_clickable = [], sp_counts = [], sp_texts = [], sp_elements = [], sp_clicks = [],
     sp_console = [] \<rparr>"

text \<open>Built-ins for ASCII text: enough of \<^verbatim>\<open>trim\<close>, \<^verbatim>\<open>parseInt\<close> and \<^verbatim>\<open>toString\<close> to run the model.\<close>

definition is_space :: "char \<Rightarrow> bool" where
  "is_space c = (c \<in> set [CHR '' '', CHR 0x09, CHR 0x0A, CHR 0x0B, CHR 0x0C, CHR 0x0D])"

definition is_digit :: "char \<Rightarrow> bool" where
  "is_digit c = (48 \<le> (of_char c :: nat) \<and> (of_char c :: nat) \<le> 57)"

definition ascii_trim :: "string \<Rightarrow> string" where
  "ascii_trim s = rev (dropWhile is_space (rev (dropWhile is_space s)))"

definition decimal_value :: "string \<Rightarrow> int" where
  "decimal_value ds = foldl (\<lambda>a c. 10 * a + (of_char c - 48)) 0 ds"

definition decimal_parseInt :: "string \<Rightarrow> js_number" where
  "decimal_parseInt s =
     (case dropWhile is_space s of
        [] \<Rightarrow> NaN
      | c # r \<Rightarrow>
          if c = CHR ''-'' then
            (if takeWhile is_digit r = [] then NaN else Num (- decimal_value (takeWhile is_digit r)))
          else if c = CHR ''+'' then
            (if takeWhile is_digit r = [] then NaN else Num (decimal_value (takeWhile is_digit r)))
          else
            (if takeWhile is_digit (c # r) = [] then NaN
             else Num (decimal_value (takeWhile is_digit (c # r)))))"

function decimal_digits :: "nat \<Rightarrow> string" where
  "decimal_digits n =
     (if n < 10 then [char_of (48 + n)] else decimal_digits (n div 10) @ [char_of (48 + n mod 10)])"
  by pat_completeness auto
termination
  by (relation "measure id") auto

declare decimal_digits.simps [simp del]

definition decimal_toString :: "int \<Rightarrow> string" where
  "decimal_toString k = (if k < 0 then CHR ''-'' # decimal_digits (nat (- k)) else decimal_digits (nat k))"

definition ascii_js :: js_builtins where
  "ascii_js = \<lparr> trim = ascii_trim, parseInt = decimal_parseInt, numberToString = decimal_toString \<rparr>"

text \<open>
  A document for running locators: a node is its position and the single selectors that
  match it.
\<close>

datatype node = Node nat "string list"

definition toy_document :: "node list \<Rightarrow> node document" where
  "toy_document ns = \<lparr> nodes = ns, matches = (\<lambda>e n. case n of Node i es \<Rightarrow> e \<in> set es),
      inside = (\<lambda>n a. False) \<rparr>"

text \<open>A function that fails twice and then succeeds; the session state counts its calls.\<close>

definition flaky :: "(nat, nat) action" where
  "flaky k = (if k < 2 then Inl TimeoutError else Inr k, Suc k)"

definition always_failing :: "(nat, nat) action" where
  "always_failing k = (Inl (JsError (replicate k CHR ''x'')), Suc k)"



text \<open>Pages and documents for the runs below.\<close>

definition cart_page :: "nat \<Rightarrow> static_page" where
  "cart_page n = blank_page\<lparr>sp_url := ''http://localhost:3000/cart'', sp_counts := [(cartItems, n)]\<rparr>"

definition showing :: "locator list \<Rightarrow> static_page" where
  \<comment> \<open>a page on which exactly the given locators are attached, visible and clickable\<close>
  "showing ls = blank_page\<lparr>sp_attached := ls, sp_visible := ls, sp_clickable := ls\<rparr>"

definition variants_page :: "(locator \<times> string option) list \<Rightarrow> locator list \<Rightarrow> static_page" where
  "variants_page texts ls =
     (showing (variantSelector # ls))\<lparr>sp_counts := [(variants, length texts)], sp_texts := texts\<rparr>"

definition clicked :: "static_page \<Rightarrow> locator \<Rightarrow> (error + unit) \<times> static_page" where
  "clicked p l = (Inr (), p\<lparr>sp_clicks := [(l, False)]\<rparr>)"

definition home_page :: static_page where
  "home_page = (showing [productList])\<lparr>sp_url := ''http://localhost:3000/''\<rparr>"

definition enabled_button_page :: static_page where
  \<open>enabled_button_page =
     (showing [addToCartButton])
       \<lparr>sp_elements :=
          [([''[data-testid="add-to-cart"]'', ''.add-to-cart''],
            \<lparr>attributes = [(''data-testid'', ''add-to-cart''), (''type'', ''button'')]\<rparr>)]\<rparr>\<close>


definition two_cards :: "node document" where
  "two_cards = toy_document [Node 1 [productByName_entries ''Tee'' ! 2],
                             Node 2 [productByName_entries ''Tee'' ! 0]]"

section \<open>Laws of the actions\<close>

lemmas run_defs = static_env_def blank_page_def settle_def return_io_def throw_io_def

lemma then_io_apply:
  "then_io m k w = (case m w of (Inl e, w') \<Rightarrow> (Inl e, w') | (Inr x, w') \<Rightarrow> k w')"
  by (simp add: then_io_def bind_io_def)

lemma bind_io_pure:
  assumes "snd (m w) = w" and "\<And>x. snd (f x w) = w"
  shows "snd (bind_io m f w) = w"
  using assms by (cases "m w") (auto simp: bind_io_def split: sum.splits)

lemma then_io_pure:
  assumes "snd (m w) = w" and "snd (k w) = w"
  shows "snd (then_io m k w) = w"
  using assms by (simp add: then_io_def bind_io_pure)

lemma expectToBe_pure: "snd (expectToBe a b w) = w"
  by (simp add: expectToBe_def return_io_def throw_io_def)

lemma elementExists_eq:
  "elementExists env l w =
     (case waitFor env l Attached 2000 w of (Inl e, w') \<Rightarrow> (Inr False, w') | (Inr u, w') \<Rightarrow> (Inr True, w'))"
  by (simp add: elementExists_def try_catch_def then_io_def bind_io_def return_io_def
           split: prod.splits sum.splits)

lemma TestHelpers_elementExists_eq:
  "TestHelpers_elementExists env sel t w =
     (case waitFor env (Css sel) Attached t w of (Inl e, w') \<Rightarrow> (Inr False, w') | (Inr u, w') \<Rightarrow> (Inr True, w'))"
  by (simp add: TestHelpers_elementExists_def try_catch_def then_io_def bind_io_def return_io_def
           split: prod.splits sum.splits)

lemma elementExists_cases:
  obtains w1 where "elementExists env l w = (Inr True, w1)"
  | w1 where "elementExists env l w = (Inr False, w1)"
  by (cases "waitFor env l Attached 2000 w"; cases "fst (waitFor env l Attached 2000 w)")
     (auto simp: elementExists_eq)

lemma elementExists_pure:
  "observations_pure env \<Longrightarrow> snd (elementExists env l w) = w"
  unfolding observations_pure_def
  by (auto simp: elementExists_eq split: prod.splits sum.splits dest: sndI)

section \<open>Existence probes\<close>

text \<open>
  C1. For every locator and every page state, both existence probes
  (\<open>BasePage.elementExists\<close> with its 2000 ms bound, \<open>TestHelpers.elementExists\<close> with the
  bound it is given) settle with a boolean and never with an error: the boolean is true
  exactly when the wait for the attached state succeeded, and false exactly when that wait
  timed out or failed in any other way.
\<close>

theorem elementExists_returns_boolean:
  "(\<exists>b. fst (elementExists env l w) = Inr b)
   \<and> (fst (elementExists env l w) = Inr True) = (fst (waitFor env l Attached 2000 w) = Inr ())
   \<and> (fst (elementExists env l w) = Inr False) = (\<exists>e. fst (waitFor env l Attached 2000 w) = Inl e)
   \<and> (\<exists>b. fst (TestHelpers_elementExists env sel t w) = Inr b)
   \<and> (fst (TestHelpers_elementExists env sel t w) = Inr True)
       = (fst (waitFor env (Css sel) Attached t w) = Inr ())
   \<and> (fst (TestHelpers_elementExists env sel t w) = Inr False)
       = (\<exists>e. fst (waitFor env (Css sel) Attached t w) = Inl e)"
  by (auto simp: elementExists_eq TestHelpers_elementExists_eq split: prod.splits sum.splits)

theorem elementExists_returns_boolean_witness:
  "fst (elementExists static_env (Css [''h1'']) (blank_page\<lparr>sp_attached := [Css [''h1'']]\<rparr>)) = Inr True
   \<and> fst (elementExists static_env (Css [''h2'']) (blank_page\<lparr>sp_attached := [Css [''h1'']]\<rparr>)) = Inr False
   \<and> fst (TestHelpers_elementExists static_env [''h1''] 5000 (blank_page\<lparr>sp_attached := [Css [''h1'']]\<rparr>)) = Inr True
   \<and> fst (TestHelpers_elementExists static_env [''h2''] 100 (blank_page\<lparr>sp_attached := [Css [''h1'']]\<rparr>)) = Inr False"
  using elementExists_returns_boolean [of static_env "Css [''h1'']" "blank_page\<lparr>sp_attached := [Css [''h1'']]\<rparr>" "[''h1'']" 5000]
    elementExists_returns_boolean [of static_env "Css [''h2'']" "blank_page\<lparr>sp_attached := [Css [''h1'']]\<rparr>" "[''h2'']" 100]
  by (simp add: run_defs)

section \<open>Size selection\<close>

lemma probes_length: "length (fst (probes env ls w)) = length ls"
proof (induction ls arbitrary: w)
  case Nil
  show ?case by simp
next
  case (Cons l ls)
  obtain r w1 where e: "elementExists env l w = (r, w1)" by (cases "elementExists env l w")
  obtain bs w2 where p: "probes env ls w1 = (bs, w2)" by (cases "probes env ls w1")
  from Cons [of w1] e p show ?case by simp
qed

lemma probes_append:
  "probes env (xs @ ys) w =
     (case probes env xs w of (bs, w1) \<Rightarrow> case probes env ys w1 of (cs, w2) \<Rightarrow> (bs @ cs, w2))"
  by (induction xs arbitrary: w) (auto split: prod.splits)

lemma explicit_hit:
  assumes "probes env (map (\<lambda>s. Css [s]) (take (Suc i) sels)) w = (replicate i False @ [True], w1)"
    and "i < length sels"
  shows "selectSize_explicit env sels w = then_io (safeClick env (Css [sels ! i])) (return_io True) w1"
  using assms
proof (induction sels arbitrary: i w)
  case Nil
  then show ?case by simp
next
  case (Cons s sels)
  show ?case
  proof (cases i)
    case 0
    with Cons.prems show ?thesis
      by (auto simp: bind_io_def split: prod.splits sum.splits)
  next
    case (Suc k)
    with Cons.prems obtain w0 where
      e: "elementExists env (Css [s]) w = (Inr False, w0)"
      and p: "probes env (map (\<lambda>s. Css [s]) (take (Suc k) sels)) w0 = (replicate k False @ [True], w1)"
      by (cases rule: elementExists_cases [of env "Css [s]" w]) (auto split: prod.splits)
    from Cons.IH [OF p] Cons.prems(2) Suc e show ?thesis
      by (simp add: bind_io_def)
  qed
qed

lemma explicit_miss:
  assumes "probes env (map (\<lambda>s. Css [s]) sels) w = (replicate (length sels) False, w1)"
  shows "selectSize_explicit env sels w = (Inr False, w1)"
  using assms
proof (induction sels arbitrary: w)
  case Nil
  then show ?case by (simp add: return_io_def)
next
  case (Cons s sels)
  from Cons.prems obtain w0 where
    e: "elementExists env (Css [s]) w = (Inr False, w0)"
    and p: "probes env (map (\<lambda>s. Css [s]) sels) w0 = (replicate (length sels) False, w1)"
    by (cases rule: elementExists_cases [of env "Css [s]" w]) (auto split: prod.splits)
  from Cons.IH [OF p] e show ?case by (simp add: bind_io_def)
qed

lemma variants_step:
  "selectSize_variants env sz v n i w =
     (if i < n then
        (case textContent env (Nth v i) w of
           (Inl e, w1) \<Rightarrow> (Inl e, w1)
         | (Inr text, w1) \<Rightarrow>
             if mentions sz text then then_io (safeClick env (Nth v i)) (return_io True) w1
             else selectSize_variants env sz v n (i + 1) w1)
      else (Inr False, w))"
  by (subst selectSize_variants.simps)
     (simp add: bind_io_def return_io_def mentions_def split: prod.splits sum.splits)

lemma variants_hit:
  assumes "reads env (map (Nth v) [i..<Suc (i + length ts)]) w = (map Inr ts @ [Inr (Some t)], w1)"
    and "\<forall>x\<in>set ts. \<not> mentions sz x" and "str_includes t sz" and "i + length ts < n"
  shows "selectSize_variants env sz v n i w
           = then_io (safeClick env (Nth v (i + length ts))) (return_io True) w1"
  using assms
proof (induction ts arbitrary: i w)
  case Nil
  then show ?case
    by (subst variants_step) (auto simp: mentions_def split: prod.splits)
next
  case (Cons x ts)
  have upt: "[i..<Suc (i + length (x # ts))] = i # [Suc i..<Suc (Suc i + length ts)]"
    by (subst upt_conv_Cons) simp_all
  from Cons.prems(1) obtain w0 where
    t: "textContent env (Nth v i) w = (Inr x, w0)"
    and r: "reads env (map (Nth v) [Suc i..<Suc (Suc i + length ts)]) w0 = (map Inr ts @ [Inr (Some t)], w1)"
    unfolding upt by (auto split: prod.splits)
  from Cons.prems have rest: "\<forall>x\<in>set ts. \<not> mentions sz x" "\<not> mentions sz x" "Suc i + length ts < n"
    by simp_all
  from Cons.IH [OF r rest(1) Cons.prems(3) rest(3)] t rest Cons.prems(4) show ?case
    by (subst variants_step) simp
qed

lemma variants_miss:
  assumes "reads env (map (Nth v) [i..<n]) w = (map Inr ts, w1)"
    and "\<forall>x\<in>set ts. \<not> mentions sz x"
  shows "selectSize_variants env sz v n i w = (Inr False, w1)"
  using assms
proof (induction ts arbitrary: i w)
  case Nil
  then have "\<not> i < n" by (cases "i < n") (auto simp: upt_conv_Cons split: prod.splits)
  with Nil show ?case by (subst variants_step) simp
next
  case (Cons x ts)
  then have lt: "i < n" by (cases "i < n") auto
  then have upt: "[i..<n] = i # [Suc i..<n]" by (simp add: upt_conv_Cons)
  from Cons.prems(1) obtain w0 where
    t: "textContent env (Nth v i) w = (Inr x, w0)"
    and r: "reads env (map (Nth v) [Suc i..<n]) w0 = (map Inr ts, w1)"
    unfolding upt by (auto split: prod.splits)
  from Cons.prems have rest: "\<forall>x\<in>set ts. \<not> mentions sz x" "\<not> mentions sz x" by simp_all
  from Cons.IH [OF r rest(1)] t rest lt show ?case
    by (subst variants_step) simp
qed

lemma probes_append_split:
  assumes "probes env (xs @ ys) w = (bs, w2)"
  obtains w1 where "probes env xs w = (take (length xs) bs, w1)"
    and "probes env ys w1 = (drop (length xs) bs, w2)"
proof -
  obtain as w1 where a: "probes env xs w = (as, w1)" by (cases "probes env xs w")
  obtain cs w2' where c: "probes env ys w1 = (cs, w2')" by (cases "probes env ys w1")
  from probes_length [of env xs w] a have len: "length as = length xs" by simp
  from assms a c have "bs = as @ cs" "w2 = w2'" by (simp_all add: probes_append)
  with a c len that [of w1] show thesis by simp
qed

lemma probes_single:
  "probes env [l] w = ([b], w1) \<longleftrightarrow> elementExists env l w = (Inr b, w1)"
  by (cases rule: elementExists_cases [of env l w]) auto

lemma length_sizeSelectors: "length (sizeSelectors sz) = 6"
  by (simp add: sizeSelectors_def)

lemma selectSize_after_miss:
  assumes "selectSize_explicit env (sizeSelectors sz) w = (Inr False, w1)"
  shows "selectSize env sz w =
           (case selectSize_generic env sz w1 of
              (Inl e, w2) \<Rightarrow> (Inl e, w2)
            | (Inr True, w2) \<Rightarrow> (Inr (), w2)
            | (Inr False, w2) \<Rightarrow>
                (case elementExists env (First sizeOptions) w2 of
                   (Inr True, w3) \<Rightarrow> safeClick env (First sizeOptions) w3
                 | (Inr False, w3) \<Rightarrow> (Inr (), w3)
                 | (Inl e, w3) \<Rightarrow> (Inl e, w3)))"
  using assms
  by (simp add: selectSize_def bind_io_def return_io_def split: prod.splits sum.splits)

lemma selectSize_explicit_stage:
  assumes "i < 6"
    and "probes env (map (\<lambda>s. Css [s]) (take (Suc i) (sizeSelectors sz))) w = (replicate i False @ [True], w1)"
  shows "selectSize env sz w = safeClick env (Css [sizeSelectors sz ! i]) w1"
proof -
  from assms have "selectSize_explicit env (sizeSelectors sz) w
      = then_io (safeClick env (Css [sizeSelectors sz ! i])) (return_io True) w1"
    by (intro explicit_hit) (simp_all add: length_sizeSelectors)
  then show ?thesis
    by (cases "safeClick env (Css [sizeSelectors sz ! i]) w1")
       (auto simp: selectSize_def bind_io_def then_io_def return_io_def split: sum.splits)
qed

lemma six_missed:
  assumes "probes env (map (\<lambda>s. Css [s]) (sizeSelectors sz) @ ls) w = (replicate 6 False @ bs, w2)"
  obtains w1 where "selectSize_explicit env (sizeSelectors sz) w = (Inr False, w1)"
    and "probes env ls w1 = (bs, w2)"
proof -
  from assms obtain w1 where
    a: "probes env (map (\<lambda>s. Css [s]) (sizeSelectors sz)) w = (replicate 6 False, w1)"
    and b: "probes env ls w1 = (bs, w2)"
    by (rule probes_append_split) (simp add: length_sizeSelectors)
  from a have "selectSize_explicit env (sizeSelectors sz) w = (Inr False, w1)"
    by (intro explicit_miss) (simp add: length_sizeSelectors)
  with b that show thesis by blast
qed

lemma selectSize_generic_stage:
  assumes "probes env (map (\<lambda>s. Css [s]) (sizeSelectors sz) @ [variantSelector]) w
             = (replicate 6 False @ [True], w1)"
    and "count env variants w1 = (Inr n, w2)"
    and "j < n" and "length ts = j"
    and "reads env (map (Nth variants) [0..<Suc j]) w2 = (map Inr ts @ [Inr (Some t)], w3)"
    and "\<forall>x\<in>set ts. \<not> mentions sz x" and "str_includes t sz"
  shows "selectSize env sz w = safeClick env (Nth variants j) w3"
proof -
  from assms(1) obtain w0 where
    miss: "selectSize_explicit env (sizeSelectors sz) w = (Inr False, w0)"
    and pv: "probes env [variantSelector] w0 = ([True], w1)"
    by (rule six_missed)
  from pv have v: "elementExists env variantSelector w0 = (Inr True, w1)"
    by (rule probes_single [THEN iffD1])
  from assms have "selectSize_variants env sz variants n 0 w2
      = then_io (safeClick env (Nth variants (0 + length ts))) (return_io True) w3"
    by (intro variants_hit) simp_all
  with assms(4) have "selectSize_variants env sz variants n 0 w2
      = then_io (safeClick env (Nth variants j)) (return_io True) w3"
    by simp
  with v assms(2) have "selectSize_generic env sz w0
      = then_io (safeClick env (Nth variants j)) (return_io True) w3"
    by (simp add: selectSize_generic_def bind_io_def variants_def)
  then show ?thesis
    by (cases "safeClick env (Nth variants j) w3")
       (auto simp: selectSize_after_miss [OF miss] then_io_def bind_io_def return_io_def split: sum.splits)
qed

lemma selectSize_first_available:
  assumes "probes env (map (\<lambda>s. Css [s]) (sizeSelectors sz) @ [variantSelector, First sizeOptions]) w
             = (replicate 6 False @ [False, b], w1)"
  shows "selectSize env sz w = (if b then safeClick env (First sizeOptions) w1 else (Inr (), w1))"
proof -
  from assms obtain w0 where
    miss: "selectSize_explicit env (sizeSelectors sz) w = (Inr False, w0)"
    and both: "probes env ([variantSelector] @ [First sizeOptions]) w0 = ([False, b], w1)"
    by (rule six_missed [where ls = "[variantSelector, First sizeOptions]"]) simp
  from both obtain w0' where pv: "probes env [variantSelector] w0 = ([False], w0')"
    and pf: "probes env [First sizeOptions] w0' = ([b], w1)"
    by (rule probes_append_split) simp
  from pv have v: "elementExists env variantSelector w0 = (Inr False, w0')"
    by (rule probes_single [THEN iffD1])
  from pf have f: "elementExists env (First sizeOptions) w0' = (Inr b, w1)"
    by (rule probes_single [THEN iffD1])
  from v have "selectSize_generic env sz w0 = (Inr False, w0')"
    by (simp add: selectSize_generic_def bind_io_def return_io_def)
  with f show ?thesis
    by (simp add: selectSize_after_miss [OF miss])
qed

lemma selectSize_scan_without_match:
  assumes "probes env (map (\<lambda>s. Css [s]) (sizeSelectors sz) @ [variantSelector]) w
             = (replicate 6 False @ [True], w1)"
    and "count env variants w1 = (Inr n, w2)"
    and "reads env (map (Nth variants) [0..<n]) w2 = (map Inr ts, w3)"
    and "\<forall>x\<in>set ts. \<not> mentions sz x"
    and "probes env [First sizeOptions] w3 = ([b], w4)"
  shows "selectSize env sz w = (if b then safeClick env (First sizeOptions) w4 else (Inr (), w4))"
proof -
  from assms(1) obtain w0 where
    miss: "selectSize_explicit env (sizeSelectors sz) w = (Inr False, w0)"
    and pv: "probes env [variantSelector] w0 = ([True], w1)"
    by (rule six_missed)
  from pv have v: "elementExists env variantSelector w0 = (Inr True, w1)"
    by (rule probes_single [THEN iffD1])
  from assms(3,4) have "selectSize_variants env sz variants n 0 w2 = (Inr False, w3)"
    by (rule variants_miss)
  with v assms(2) have g: "selectSize_generic env sz w0 = (Inr False, w3)"
    by (simp add: selectSize_generic_def bind_io_def variants_def)
  from assms(5) have "elementExists env (First sizeOptions) w3 = (Inr b, w4)"
    by (rule probes_single [THEN iffD1])
  with g show ?thesis
    by (simp add: selectSize_after_miss [OF miss])
qed

text \<open>
  C2. For every requested size, \<open>selectSize\<close> works through its patterns in a fixed order.
  (1) The six explicit selectors are probed in list order; the first one whose target
  exists is clicked and nothing else is tried. (2) When none of the six exists and the
  variant selector does, the candidates are read in order and the first whose text
  contains the size is clicked. (3) When none of the six exists and the variant selector
  does not exist either, the first size option is clicked if it exists, and (4) if it does
  not exist the method returns normally without any click. (5) The same holds when the
  variant selector exists but no candidate's text contains the size: the first size option
  is clicked if it exists, and otherwise the method returns normally.
\<close>

theorem selectSize_sequence:
  "(\<forall>i w1. i < 6
        \<and> probes env (map (\<lambda>s. Css [s]) (take (Suc i) (sizeSelectors sz))) w
            = (replicate i False @ [True], w1)
      \<longrightarrow> selectSize env sz w = safeClick env (Css [sizeSelectors sz ! i]) w1)
   \<and> (\<forall>w1 n w2 j ts t w3.
        probes env (map (\<lambda>s. Css [s]) (sizeSelectors sz) @ [variantSelector]) w
            = (replicate 6 False @ [True], w1)
        \<and> count env variants w1 = (Inr n, w2) \<and> j < n \<and> length ts = j
        \<and> reads env (map (Nth variants) [0..<Suc j]) w2 = (map Inr ts @ [Inr (Some t)], w3)
        \<and> (\<forall>x\<in>set ts. \<not> mentions sz x) \<and> str_includes t sz
      \<longrightarrow> selectSize env sz w = safeClick env (Nth variants j) w3)
   \<and> (\<forall>w1. probes env (map (\<lambda>s. Css [s]) (sizeSelectors sz) @ [variantSelector, First sizeOptions]) w
            = (replicate 7 False @ [True], w1)
      \<longrightarrow> selectSize env sz w = safeClick env (First sizeOptions) w1)
   \<and> (\<forall>w1. probes env (map (\<lambda>s. Css [s]) (sizeSelectors sz) @ [variantSelector, First sizeOptions]) w
            = (replicate 8 False, w1)
      \<longrightarrow> selectSize env sz w = (Inr (), w1))
   \<and> (\<forall>w1 n w2 ts w3 b w4.
        probes env (map (\<lambda>s. Css [s]) (sizeSelectors sz) @ [variantSelector]) w
            = (replicate 6 False @ [True], w1)
        \<and> count env variants w1 = (Inr n, w2)
        \<and> reads env (map (Nth variants) [0..<n]) w2 = (map Inr ts, w3)
        \<and> (\<forall>x\<in>set ts. \<not> mentions sz x)
        \<and> probes env [First sizeOptions] w3 = ([b], w4)
      \<longrightarrow> selectSize env sz w = (if b then safeClick env (First sizeOptions) w4 else (Inr (), w4)))"
proof (intro conjI allI impI)
  fix i w1
  assume "i < 6 \<and> probes env (map (\<lambda>s. Css [s]) (take (Suc i) (sizeSelectors sz))) w
            = (replicate i False @ [True], w1)"
  then show "selectSize env sz w = safeClick env (Css [sizeSelectors sz ! i]) w1"
    by (intro selectSize_explicit_stage) simp_all
next
  fix w1 n w2 j ts t w3
  assume "probes env (map (\<lambda>s. Css [s]) (sizeSelectors sz) @ [variantSelector]) w
            = (replicate 6 False @ [True], w1)
        \<and> count env variants w1 = (Inr n, w2) \<and> j < n \<and> length ts = j
        \<and> reads env (map (Nth variants) [0..<Suc j]) w2 = (map Inr ts @ [Inr (Some t)], w3)
        \<and> (\<forall>x\<in>set ts. \<not> mentions sz x) \<and> str_includes t sz"
  then show "selectSize env sz w = safeClick env (Nth variants j) w3"
    by (intro selectSize_generic_stage [where n = n and ts = ts and t = t and ?w1.0 = w1 and ?w2.0 = w2]) simp_all
next
  fix w1
  assume "probes env (map (\<lambda>s. Css [s]) (sizeSelectors sz) @ [variantSelector, First sizeOptions]) w
            = (replicate 7 False @ [True], w1)"
  then have "probes env (map (\<lambda>s. Css [s]) (sizeSelectors sz) @ [variantSelector, First sizeOptions]) w
            = (replicate 6 False @ [False, True], w1)"
    by (simp add: numeral_eq_Suc replicate_append_same)
  from selectSize_first_available [OF this]
  show "selectSize env sz w = safeClick env (First sizeOptions) w1" by simp
next
  fix w1
  assume "probes env (map (\<lambda>s. Css [s]) (sizeSelectors sz) @ [variantSelector, First sizeOptions]) w
            = (replicate 8 False, w1)"
  then have "probes env (map (\<lambda>s. Css [s]) (sizeSelectors sz) @ [variantSelector, First sizeOptions]) w
            = (replicate 6 False @ [False, False], w1)"
    by (simp add: numeral_eq_Suc)
  from selectSize_first_available [OF this]
  show "selectSize env sz w = (Inr (), w1)" by simp
next
  fix w1 n w2 ts w3 b w4
  assume "probes env (map (\<lambda>s. Css [s]) (sizeSelectors sz) @ [variantSelector]) w
            = (replicate 6 False @ [True], w1)
        \<and> count env variants w1 = (Inr n, w2)
        \<and> reads env (map (Nth variants) [0..<n]) w2 = (map Inr ts, w3)
        \<and> (\<forall>x\<in>set ts. \<not> mentions sz x)
        \<and> probes env [First sizeOptions] w3 = ([b], w4)"
  then show "selectSize env sz w = (if b then safeClick env (First sizeOptions) w4 else (Inr (), w4))"
    by (intro selectSize_scan_without_match [where n = n and ts = ts and ?w1.0 = w1 and ?w2.0 = w2 and ?w3.0 = w3]) simp_all
qed
theorem selectSize_sequence_witness:
  "selectSize static_env ''M'' (showing [Css [sizeSelectors ''M'' ! 2], Css [sizeSelectors ''M'' ! 4]])
     = clicked (showing [Css [sizeSelectors ''M'' ! 2], Css [sizeSelectors ''M'' ! 4]])
         (Css [sizeSelectors ''M'' ! 2])
   \<and> selectSize static_env ''M''
       (variants_page [(Nth variants 0, Some ''Small''), (Nth variants 1, Some ''Size M'')] [Nth variants 1])
     = clicked (variants_page [(Nth variants 0, Some ''Small''), (Nth variants 1, Some ''Size M'')] [Nth variants 1])
         (Nth variants 1)
   \<and> selectSize static_env ''M'' (showing [First sizeOptions])
     = clicked (showing [First sizeOptions]) (First sizeOptions)
   \<and> selectSize static_env ''M'' blank_page = (Inr (), blank_page)
   \<and> selectSize static_env ''M'' (variants_page [(Nth variants 0, None)] [])
     = (Inr (), variants_page [(Nth variants 0, None)] [])"
proof -
  let ?six = "map (\<lambda>s. Css [s]) (sizeSelectors ''M'')"
  let ?A = "showing [Css [sizeSelectors ''M'' ! 2], Css [sizeSelectors ''M'' ! 4]]"
  let ?B = "variants_page [(Nth variants 0, Some ''Small''), (Nth variants 1, Some ''Size M'')] [Nth variants 1]"
  let ?C = "showing [First sizeOptions]"
  let ?E = "variants_page [(Nth variants 0, None)] []"
  have hA: "2 < (6::nat) \<and> probes static_env (map (\<lambda>s. Css [s]) (take (Suc 2) (sizeSelectors ''M''))) ?A
              = (replicate 2 False @ [True], ?A)"
    by code_simp
  have cA: "safeClick static_env (Css [sizeSelectors ''M'' ! 2]) ?A = clicked ?A (Css [sizeSelectors ''M'' ! 2])"
    by code_simp
  have a: "selectSize static_env ''M'' ?A = clicked ?A (Css [sizeSelectors ''M'' ! 2])"
    using selectSize_sequence [where env = static_env and sz = "''M''" and w = ?A,
        THEN conjunct1, rule_format, OF hA]
    by (simp only: cA)
  have hB: "probes static_env (?six @ [variantSelector]) ?B = (replicate 6 False @ [True], ?B)
        \<and> count static_env variants ?B = (Inr 2, ?B) \<and> 1 < (2::nat) \<and> length [Some ''Small''] = 1
        \<and> reads static_env (map (Nth variants) [0..<Suc 1]) ?B
            = (map Inr [Some ''Small''] @ [Inr (Some ''Size M'')], ?B)
        \<and> (\<forall>x\<in>set [Some ''Small'']. \<not> mentions ''M'' x) \<and> str_includes ''Size M'' ''M''"
    by code_simp
  have cB: "safeClick static_env (Nth variants 1) ?B = clicked ?B (Nth variants 1)"
    by code_simp
  have b: "selectSize static_env ''M'' ?B = clicked ?B (Nth variants 1)"
    using selectSize_sequence [where env = static_env and sz = "''M''" and w = ?B,
        THEN conjunct2, THEN conjunct1, rule_format, OF hB]
    by (simp only: cB)
  have hC: "probes static_env (?six @ [variantSelector, First sizeOptions]) ?C
              = (replicate 7 False @ [True], ?C)"
    by code_simp
  have cC: "safeClick static_env (First sizeOptions) ?C = clicked ?C (First sizeOptions)"
    by code_simp
  have c: "selectSize static_env ''M'' ?C = clicked ?C (First sizeOptions)"
    using selectSize_sequence [where env = static_env and sz = "''M''" and w = ?C,
        THEN conjunct2, THEN conjunct2, THEN conjunct1, rule_format, OF hC]
    by (simp only: cC)
  have hD: "probes static_env (?six @ [variantSelector, First sizeOptions]) blank_page
              = (replicate 8 False, blank_page)"
    by code_simp
  have d: "selectSize static_env ''M'' blank_page = (Inr (), blank_page)"
    by (rule selectSize_sequence [where env = static_env and sz = "''M''" and w = blank_page,
        THEN conjunct2, THEN conjunct2, THEN conjunct2, THEN conjunct1, rule_format, OF hD])
  have hE: "probes static_env (?six @ [variantSelector]) ?E = (replicate 6 False @ [True], ?E)
        \<and> count static_env variants ?E = (Inr 1, ?E)
        \<and> reads static_env (map (Nth variants) [0..<1]) ?E = (map Inr [None], ?E)
        \<and> (\<forall>x\<in>set [None]. \<not> mentions ''M'' x)
        \<and> probes static_env [First sizeOptions] ?E = ([False], ?E)"
    by code_simp
  have e: "selectSize static_env ''M'' ?E = (Inr (), ?E)"
    using selectSize_sequence [where env = static_env and sz = "''M''" and w = ?E,
        THEN conjunct2, THEN conjunct2, THEN conjunct2, THEN conjunct2, rule_format, OF hE]
    by (simp only: if_False)
  from a b c d e show ?thesis by (intro conjI)
qed

section \<open>The add-to-cart gate\<close>

lemma addToCartNotDisabled_throws: "addToCartNotDisabled doc = Inl (JsError ''SyntaxError'')"
  by (simp add: addToCartNotDisabled_def querySelector_def library_only_def)

lemma poll_throwing:
  assumes "\<And>doc. f doc = Inl e"
  shows "poll env f w ws = (case ws of [] \<Rightarrow> (Inl TimeoutError, w) | w1 # rest \<Rightarrow> (Inl e, w1))"
  by (cases ws) (simp_all add: assms)

lemma waitForAddToCartEnabled_eq:
  "waitForAddToCartEnabled env w =
     (case waitFor env addToCartButton Visible 5000 w of
        (Inl e, w1) \<Rightarrow>
          (Inr (), consoleLog env ''Add to cart button may still be disabled, trying anyway...'' w1)
      | (Inr u, w1) \<Rightarrow>
          (case waitForFunction env addToCartNotDisabled 5000 w1 of
             (Inl e, w2) \<Rightarrow>
               (Inr (), consoleLog env ''Add to cart button may still be disabled, trying anyway...'' w2)
           | (Inr u, w2) \<Rightarrow> (Inr (), w2)))"
  by (simp add: waitForAddToCartEnabled_def try_catch_def then_io_apply log_io_def
           split: prod.splits sum.splits)

lemma success_wait_total:
  "fst (try_catch (waitForSelector env sel t) (\<lambda>_. log_io env msg) w) = Inr ()"
  by (simp add: try_catch_def log_io_def split: prod.splits sum.splits)

lemma clickAddToCart_normal:
  assumes "safeClick env addToCartButton w = (Inr (), w1)"
  shows "fst (clickAddToCart env w) = Inr ()"
  using assms success_wait_total [of env _ 3000 _ w1]
  by (simp add: clickAddToCart_def then_io_apply try_catch_def log_io_def split: prod.splits sum.splits)

lemma clickAddToCart_forced:
  assumes "safeClick env addToCartButton w = (Inl e, w1)"
  shows "fst (clickAddToCart env w)
           = fst (click env addToCartButton True
                    (consoleLog env ''Normal click failed, trying force click...'' w1))"
proof (cases "click env addToCartButton True (consoleLog env ''Normal click failed, trying force click...'' w1)")
  case (Pair r w2)
  show ?thesis
  proof (cases r)
    case (Inl e')
    with Pair assms show ?thesis
      by (simp add: clickAddToCart_def then_io_apply try_catch_def log_io_def)
  next
    case (Inr u)
    with Pair assms success_wait_total [of env _ 3000 _ w2] show ?thesis
      by (simp add: clickAddToCart_def then_io_apply try_catch_def log_io_def split: prod.splits sum.splits)
  qed
qed

text \<open>
  What the gate and the click do with failures: the gate never fails, so
  \<open>addToCartWithSpecs\<close> goes on to the click from whatever state the gate left; a normal
  click that succeeds makes \<open>clickAddToCart\<close> succeed, and a normal click that fails is
  followed by a forced click, whose outcome is the outcome of the method.
\<close>

lemma addToCart_proceeds_to_click:
  "fst (waitForAddToCartEnabled env w) = Inr ()
   \<and> (\<forall>w0. addToCart_preparation js env sz quantity w = (Inr (), w0)
        \<longrightarrow> addToCartWithSpecs js env sz quantity w
            = clickAddToCart env (snd (waitForAddToCartEnabled env w0)))
   \<and> (\<forall>w1. safeClick env addToCartButton w = (Inr (), w1) \<longrightarrow> fst (clickAddToCart env w) = Inr ())
   \<and> (\<forall>e w1. safeClick env addToCartButton w = (Inl e, w1)
        \<longrightarrow> fst (clickAddToCart env w)
            = fst (click env addToCartButton True
                     (consoleLog env ''Normal click failed, trying force click...'' w1)))"
proof (intro conjI allI impI)
  show "fst (waitForAddToCartEnabled env w) = Inr ()"
    by (simp add: waitForAddToCartEnabled_eq split: prod.splits sum.splits)
next
  fix w0 assume prep: "addToCart_preparation js env sz quantity w = (Inr (), w0)"
  have total: "fst (waitForAddToCartEnabled env w0) = Inr ()"
    by (simp add: waitForAddToCartEnabled_eq split: prod.splits sum.splits)
  then have "then_io (waitForAddToCartEnabled env) (clickAddToCart env) w0
       = clickAddToCart env (snd (waitForAddToCartEnabled env w0))"
    by (cases "waitForAddToCartEnabled env w0") (simp add: then_io_apply)
  with prep show "addToCartWithSpecs js env sz quantity w
            = clickAddToCart env (snd (waitForAddToCartEnabled env w0))"
    by (simp add: addToCartWithSpecs_def then_io_apply [of "addToCart_preparation js env sz quantity"])
next
  fix w1 assume "safeClick env addToCartButton w = (Inr (), w1)"
  then show "fst (clickAddToCart env w) = Inr ()" by (rule clickAddToCart_normal)
next
  fix e w1 assume "safeClick env addToCartButton w = (Inl e, w1)"
  then show "fst (clickAddToCart env w)
            = fst (click env addToCartButton True
                     (consoleLog env ''Normal click failed, trying force click...'' w1))"
    by (rule clickAddToCart_forced)
qed

text \<open>
  C3. The gate is written to wait, bounded by 5000 ms, until the add-to-cart control is
  neither disabled nor aria-disabled, but its poll cannot succeed. The function it hands
  to \<^verbatim>\<open>page.waitForFunction\<close> asks the DOM for a selector list that holds a \<^verbatim>\<open>:has-text\<close>
  entry, which the DOM rejects, so the function throws in every document. For every
  session the wait therefore fails at its first evaluation (or times out when there is
  none) and never fulfils, and the gate always logs that the button may still be disabled
  and returns normally, whatever the state of the button.
\<close>

theorem addToCart_gate_never_polls:
  "addToCartNotDisabled doc = Inl (JsError ''SyntaxError'')
   \<and> waitForFunction env addToCartNotDisabled timeout w
       = (case pollStates env timeout w of
            [] \<Rightarrow> (Inl TimeoutError, w)
          | w1 # rest \<Rightarrow> (Inl (JsError ''SyntaxError''), w1))
   \<and> fst (waitForFunction env addToCartNotDisabled timeout w) \<noteq> Inr ()
   \<and> (\<exists>w'. waitForAddToCartEnabled env w
            = (Inr (), consoleLog env ''Add to cart button may still be disabled, trying anyway...'' w'))"
proof (intro conjI)
  show "addToCartNotDisabled doc = Inl (JsError ''SyntaxError'')"
    by (rule addToCartNotDisabled_throws)
  show eq: "waitForFunction env addToCartNotDisabled timeout w
       = (case pollStates env timeout w of
            [] \<Rightarrow> (Inl TimeoutError, w)
          | w1 # rest \<Rightarrow> (Inl (JsError ''SyntaxError''), w1))" for timeout w
    unfolding waitForFunction_def by (rule poll_throwing) (rule addToCartNotDisabled_throws)
  show never: "fst (waitForFunction env addToCartNotDisabled timeout w) \<noteq> Inr ()" for timeout w
    by (simp add: eq split: list.splits)
  show "\<exists>w'. waitForAddToCartEnabled env w
            = (Inr (), consoleLog env ''Add to cart button may still be disabled, trying anyway...'' w')"
  proof (cases "waitFor env addToCartButton Visible 5000 w")
    case (Pair r w1)
    show ?thesis
    proof (cases r)
      case (Inl e)
      with Pair show ?thesis by (auto simp: waitForAddToCartEnabled_eq)
    next
      case (Inr u)
      obtain r2 w2 where p: "waitForFunction env addToCartNotDisabled 5000 w1 = (r2, w2)"
        by (cases "waitForFunction env addToCartNotDisabled 5000 w1")
      with never [of 5000 w1] obtain e where "r2 = Inl e" by (cases r2) auto
      with Pair Inr p show ?thesis by (auto simp: waitForAddToCartEnabled_eq)
    qed
  qed
qed

theorem addToCart_gate_never_polls_witness:
  \<open>firstMatch (pageDocument static_env enabled_button_page)
       [''[data-testid="add-to-cart"]'', ''.add-to-cart'']
     = Some \<lparr>attributes = [(''data-testid'', ''add-to-cart''), (''type'', ''button'')]\<rparr>
   \<and> hasAttribute \<lparr>attributes = [(''data-testid'', ''add-to-cart''), (''type'', ''button'')]\<rparr> ''disabled'' = False
   \<and> fst (waitFor static_env addToCartButton Visible 5000 enabled_button_page) = Inr ()
   \<and> fst (waitForFunction static_env addToCartNotDisabled 5000 enabled_button_page)
       = Inl (JsError ''SyntaxError'')
   \<and> waitForAddToCartEnabled static_env enabled_button_page
       = (Inr (), enabled_button_page
                    \<lparr>sp_console := [''Add to cart button may still be disabled, trying anyway...'']\<rparr>)\<close>
proof -
  have a: \<open>firstMatch (pageDocument static_env enabled_button_page)
       [''[data-testid="add-to-cart"]'', ''.add-to-cart'']
     = Some \<lparr>attributes = [(''data-testid'', ''add-to-cart''), (''type'', ''button'')]\<rparr>\<close>
    by code_simp
  have b: "hasAttribute \<lparr>attributes = [(''data-testid'', ''add-to-cart''), (''type'', ''button'')]\<rparr> ''disabled'' = False"
    by code_simp
  have c: "fst (waitFor static_env addToCartButton Visible 5000 enabled_button_page) = Inr ()"
    by code_simp
  have frames: "pollStates static_env 5000 enabled_button_page = [enabled_button_page]"
    by (simp add: static_env_def)
  have d: "fst (waitForFunction static_env addToCartNotDisabled 5000 enabled_button_page)
       = Inl (JsError ''SyntaxError'')"
    using addToCart_gate_never_polls [of _ static_env 5000 enabled_button_page, THEN conjunct2, THEN conjunct1]
    by (simp add: frames)
  have e: "waitForAddToCartEnabled static_env enabled_button_page
       = (Inr (), enabled_button_page
                    \<lparr>sp_console := [''Add to cart button may still be disabled, trying anyway...'']\<rparr>)"
    by code_simp
  from a b c d e show ?thesis by (intro conjI)
qed

section \<open>The cart page\<close>

lemma verifyCartPageLoaded_eq:
  "verifyCartPageLoaded env w =
     (case expectToHaveURL env (Containing ''/cart'') w of
        (Inl e, w') \<Rightarrow> (Inl e, w')
      | (Inr u, w') \<Rightarrow> waitForLoadState env DomContentLoaded w')"
  by (simp add: verifyCartPageLoaded_def then_io_apply waitForPageLoad_def)

text \<open>
  C4. \<open>verifyCartPageLoaded\<close> passes exactly when the URL check against the \<^verbatim>\<open>/cart\<close>
  pattern passes and the wait for the loaded state, started from the state that check
  left, passes. Nothing else is consulted: replacing what the session answers to element
  counts, element waits and text reads leaves the outcome as it is, and on a scripted page
  the outcome is the same for every table of element counts and every set of attached
  elements. An empty and a non-empty cart are judged alike.
\<close>

theorem verifyCartPageLoaded_ignores_items:
  "(fst (verifyCartPageLoaded env w) = Inr ())
     = (fst (expectToHaveURL env (Containing ''/cart'') w) = Inr ()
        \<and> fst (waitForLoadState env DomContentLoaded
                 (snd (expectToHaveURL env (Containing ''/cart'') w))) = Inr ())
   \<and> verifyCartPageLoaded (env\<lparr>count := c, waitFor := wfor, textContent := tc\<rparr>) w
       = verifyCartPageLoaded env w
   \<and> fst (verifyCartPageLoaded static_env (p\<lparr>sp_counts := cs, sp_attached := a\<rparr>))
       = fst (verifyCartPageLoaded static_env p)"
  apply (intro conjI)
  subgoal by (auto simp: verifyCartPageLoaded_eq split: prod.splits sum.splits)
  subgoal by (simp add: verifyCartPageLoaded_eq split: prod.splits sum.splits)
  subgoal by (simp add: verifyCartPageLoaded_eq static_env_def settle_def return_io_def throw_io_def split: prod.splits sum.splits)
  done

theorem verifyCartPageLoaded_ignores_items_witness:
  "fst (verifyCartPageLoaded static_env (cart_page 0)) = Inr ()
   \<and> fst (verifyCartPageLoaded static_env (cart_page 3)) = Inr ()
   \<and> fst (verifyCartPageLoaded static_env (blank_page\<lparr>sp_url := ''http://localhost:3000/checkout''\<rparr>))
       = Inl ExpectError"
proof -
  have zero: "fst (expectToHaveURL static_env (Containing ''/cart'') (cart_page 0)) = Inr ()
      \<and> fst (waitForLoadState static_env DomContentLoaded
               (snd (expectToHaveURL static_env (Containing ''/cart'') (cart_page 0)))) = Inr ()"
    by (simp add: run_defs cart_page_def)
  have a: "fst (verifyCartPageLoaded static_env (cart_page 0)) = Inr ()"
    using verifyCartPageLoaded_ignores_items [of static_env "cart_page 0"] zero by blast
  have "cart_page 3 = cart_page 0\<lparr>sp_counts := [(cartItems, 3)], sp_attached := []\<rparr>"
    by (simp add: cart_page_def blank_page_def)
  then have b: "fst (verifyCartPageLoaded static_env (cart_page 3)) = Inr ()"
    using verifyCartPageLoaded_ignores_items [where env = static_env and w = "cart_page 0"
        and c = "count static_env" and wfor = "waitFor static_env" and tc = "textContent static_env"
        and p = "cart_page 0" and cs = "[(cartItems, 3)]" and a = "[]"] a
    by simp
  have c: "fst (verifyCartPageLoaded static_env (blank_page\<lparr>sp_url := ''http://localhost:3000/checkout''\<rparr>))
       = Inl ExpectError"
    by (simp add: verifyCartPageLoaded_def then_io_apply run_defs)
  from a b c show ?thesis by simp
qed

lemma getCartItemsCount_eq:
  "getCartItemsCount env w =
     (case count env cartItems w of (Inl e, w') \<Rightarrow> (Inr 0, w') | (Inr n, w') \<Rightarrow> (Inr n, w'))"
  by (simp add: getCartItemsCount_def try_catch_def return_io_def split: prod.splits sum.splits)

lemma isCartEmpty_eq:
  "isCartEmpty env w =
     (case elementExists env emptyCartMessage w of
        (Inr True, w') \<Rightarrow> (Inr True, w')
      | (Inr False, w') \<Rightarrow> (case getCartItemsCount env w' of
                               (Inr n, w'') \<Rightarrow> (Inr (n = 0), w'')
                             | (Inl e, w'') \<Rightarrow> (Inl e, w''))
      | (Inl e, w') \<Rightarrow> (Inl e, w'))"
  by (simp add: isCartEmpty_def bind_io_def return_io_def split: prod.splits sum.splits)

text \<open>
  C5. \<open>isCartEmpty\<close> never fails and returns true exactly when the empty-cart message
  exists or \<open>getCartItemsCount\<close>, asked after the probe for the message, reports zero;
  either one suffices. \<open>getCartItemsCount\<close> itself never fails: it reports the number of
  cart-item elements, and zero when counting throws.
\<close>

theorem isCartEmpty_message_or_no_items:
  "fst (isCartEmpty env w)
     = Inr (fst (elementExists env emptyCartMessage w) = Inr True
            \<or> fst (getCartItemsCount env (snd (elementExists env emptyCartMessage w))) = Inr 0)
   \<and> fst (getCartItemsCount env w')
       = Inr (case fst (count env cartItems w') of Inl e \<Rightarrow> 0 | Inr n \<Rightarrow> n)"
  apply (intro conjI)
  subgoal
    by (auto simp: isCartEmpty_eq elementExists_eq getCartItemsCount_eq split: prod.splits sum.splits)
  subgoal by (auto simp: getCartItemsCount_eq split: prod.splits sum.splits)
  done

theorem isCartEmpty_message_or_no_items_witness:
  "fst (isCartEmpty static_env (cart_page 0)) = Inr True
   \<and> fst (isCartEmpty static_env (cart_page 2)) = Inr False
   \<and> fst (isCartEmpty static_env ((cart_page 2)\<lparr>sp_attached := [emptyCartMessage]\<rparr>)) = Inr True"
  using isCartEmpty_message_or_no_items [of static_env "cart_page 0"]
    isCartEmpty_message_or_no_items [of static_env "cart_page 2"]
    isCartEmpty_message_or_no_items [of static_env "(cart_page 2)\<lparr>sp_attached := [emptyCartMessage]\<rparr>"]
  by (simp add: elementExists_eq getCartItemsCount_eq run_defs cart_page_def)

section \<open>Comma-separated selector lists\<close>

lemma take1_filter:
  "take 1 (filter P xs) = [n] \<longleftrightarrow> (\<exists>pre post. xs = pre @ n # post \<and> P n \<and> (\<forall>x\<in>set pre. \<not> P x))"
proof (induction xs)
  case Nil
  then show ?case by simp
next
  case (Cons x xs)
  show ?case
  proof (cases "P x")
    case True
    have "(\<exists>pre post. x # xs = pre @ n # post \<and> P n \<and> (\<forall>y\<in>set pre. \<not> P y)) \<longleftrightarrow> x = n"
    proof
      assume "\<exists>pre post. x # xs = pre @ n # post \<and> P n \<and> (\<forall>y\<in>set pre. \<not> P y)"
      then obtain pre post where *: "x # xs = pre @ n # post" "\<forall>y\<in>set pre. \<not> P y" by blast
      with True show "x = n" by (cases pre) auto
    next
      assume "x = n"
      with True show "\<exists>pre post. x # xs = pre @ n # post \<and> P n \<and> (\<forall>y\<in>set pre. \<not> P y)"
        by (intro exI [of _ "[]"] exI [of _ xs]) simp
    qed
    with True show ?thesis by simp
  next
    case False
    have "(\<exists>pre post. x # xs = pre @ n # post \<and> P n \<and> (\<forall>y\<in>set pre. \<not> P y))
          \<longleftrightarrow> (\<exists>pre post. xs = pre @ n # post \<and> P n \<and> (\<forall>y\<in>set pre. \<not> P y))"
    proof
      assume "\<exists>pre post. x # xs = pre @ n # post \<and> P n \<and> (\<forall>y\<in>set pre. \<not> P y)"
      then obtain pre post where *: "x # xs = pre @ n # post" "P n" "\<forall>y\<in>set pre. \<not> P y" by blast
      with False obtain pre' where "pre = x # pre'" by (cases pre) auto
      with * show "\<exists>pre post. xs = pre @ n # post \<and> P n \<and> (\<forall>y\<in>set pre. \<not> P y)"
        by auto
    next
      assume "\<exists>pre post. xs = pre @ n # post \<and> P n \<and> (\<forall>y\<in>set pre. \<not> P y)"
      then obtain pre post where "xs = pre @ n # post" "P n" "\<forall>y\<in>set pre. \<not> P y" by blast
      with False show "\<exists>pre post. x # xs = pre @ n # post \<and> P n \<and> (\<forall>y\<in>set pre. \<not> P y)"
        by (intro exI [of _ "x # pre"] exI [of _ post]) simp
    qed
    with False Cons.IH show ?thesis by simp
  qed
qed

lemma length_take1: "length (take 1 xs) \<le> 1"
  by simp

lemma take1_empty: "take 1 xs = [] \<longleftrightarrow> xs = []"
  by (cases xs) simp_all

text \<open>
  C6, as amended. \<open>getProductByName\<close> resolves to at most one node: the first node in
  document order that matches any entry of its selector list, whatever the position of
  that entry in the list; it resolves to nothing exactly when no node matches any entry.
  The same holds for every comma-separated locator followed by \<^verbatim>\<open>.first()\<close>, such as
  \<open>getFirstProduct\<close>.
\<close>

theorem getProductByName_document_order:
  "(resolve doc (getProductByName name) = [n])
     = (\<exists>pre post. nodes doc = pre @ n # post
          \<and> matches_any doc (productByName_entries name) n
          \<and> (\<forall>x\<in>set pre. \<not> matches_any doc (productByName_entries name) x))
   \<and> (resolve doc (getProductByName name) = [])
     = (\<forall>x\<in>set (nodes doc). \<not> matches_any doc (productByName_entries name) x)
   \<and> length (resolve doc (getProductByName name)) \<le> 1
   \<and> (resolve doc (First (Css entries)) = [n])
     = (\<exists>pre post. nodes doc = pre @ n # post
          \<and> matches_any doc entries n
          \<and> (\<forall>x\<in>set pre. \<not> matches_any doc entries x))"
  unfolding getProductByName_def resolve.simps
  by (intro conjI take1_filter length_take1) (simp only: take1_empty filter_empty_conv)

theorem getProductByName_document_order_witness:
  "nodes two_cards = [] @ Node 1 [productByName_entries ''Tee'' ! 2] # [Node 2 [productByName_entries ''Tee'' ! 0]]
   \<and> resolve two_cards (getProductByName ''Tee'') = [Node 1 [productByName_entries ''Tee'' ! 2]]"
proof -
  have a: "nodes two_cards = [] @ Node 1 [productByName_entries ''Tee'' ! 2] # [Node 2 [productByName_entries ''Tee'' ! 0]]"
    by (simp add: two_cards_def toy_document_def)
  have b: "matches_any two_cards (productByName_entries ''Tee'') (Node 1 [productByName_entries ''Tee'' ! 2])"
    by (simp add: two_cards_def toy_document_def matches_any_def productByName_entries_def)
  have "\<exists>pre post. nodes two_cards = pre @ Node 1 [productByName_entries ''Tee'' ! 2] # post
          \<and> matches_any two_cards (productByName_entries ''Tee'') (Node 1 [productByName_entries ''Tee'' ! 2])
          \<and> (\<forall>x\<in>set pre. \<not> matches_any two_cards (productByName_entries ''Tee'') x)"
    using a b by (intro exI [of _ "[]"] exI [of _ "[Node 2 [productByName_entries ''Tee'' ! 0]]"]) simp
  then have "resolve two_cards (getProductByName ''Tee'') = [Node 1 [productByName_entries ''Tee'' ! 2]]"
    using getProductByName_document_order [of two_cards "''Tee''" "Node 1 [productByName_entries ''Tee'' ! 2]"]
    by blast
  with a show ?thesis by simp
qed

text \<open>
  C6, as stated, fails. In a document whose first node matches only the third entry of the
  list and whose second node matches only the first entry, the locator resolves to the
  first node of the document; choosing the first matching list entry would give the
  second node.
\<close>

theorem first_list_entry_counterexample:
  "resolve (toy_document [Node 1 [productByName_entries ''Tee'' ! 2],
                          Node 2 [productByName_entries ''Tee'' ! 0]])
     (getProductByName ''Tee'')
   = [Node 1 [productByName_entries ''Tee'' ! 2]]
   \<and> spec_first_entry_resolution
       (toy_document [Node 1 [productByName_entries ''Tee'' ! 2],
                      Node 2 [productByName_entries ''Tee'' ! 0]])
       (productByName_entries ''Tee'')
   = [Node 2 [productByName_entries ''Tee'' ! 0]]
   \<and> resolve (toy_document [Node 1 [productByName_entries ''Tee'' ! 2],
                            Node 2 [productByName_entries ''Tee'' ! 0]])
       (getProductByName ''Tee'')
   \<noteq> spec_first_entry_resolution
       (toy_document [Node 1 [productByName_entries ''Tee'' ! 2],
                      Node 2 [productByName_entries ''Tee'' ! 0]])
       (productByName_entries ''Tee'')"
  by (simp add: getProductByName_def toy_document_def matches_any_def spec_first_entry_resolution_def
        productByName_entries_def)

section \<open>Repeating a verification\<close>

lemma verifyCheckoutPageLoaded_eq:
  "verifyCheckoutPageLoaded env w =
     (case expectToHaveURL env (Containing ''/checkout'') w of
        (Inl e, w') \<Rightarrow> (Inl e, w')
      | (Inr u, w') \<Rightarrow> waitForLoadState env DomContentLoaded w')"
  by (simp add: verifyCheckoutPageLoaded_def then_io_apply waitForPageLoad_def)

lemma verifyCartPageLoaded_pure:
  assumes "observations_pure env"
  shows "snd (verifyCartPageLoaded env w) = w"
proof -
  from assms have a: "snd (expectToHaveURL env (Containing ''/cart'') w) = w"
    and b: "snd (waitForLoadState env DomContentLoaded w) = w"
    by (simp_all add: observations_pure_def)
  show ?thesis
    using a b by (auto simp: verifyCartPageLoaded_eq split: prod.splits sum.splits)
qed

lemma verifyCheckoutPageLoaded_pure:
  assumes "observations_pure env"
  shows "snd (verifyCheckoutPageLoaded env w) = w"
proof -
  from assms have a: "snd (expectToHaveURL env (Containing ''/checkout'') w) = w"
    and b: "snd (waitForLoadState env DomContentLoaded w) = w"
    by (simp_all add: observations_pure_def)
  show ?thesis
    using a b by (auto simp: verifyCheckoutPageLoaded_eq split: prod.splits sum.splits)
qed

lemma verifyHomepageLoaded_pure:
  assumes "observations_pure env"
  shows "snd (verifyHomepageLoaded env w) = w"
proof -
  from assms have a: "snd (expectToHaveURL env (Containing ''localhost:3000'') w) = w"
    and b: "snd (expectToBeVisible env productList w) = w"
    by (simp_all add: observations_pure_def)
  show ?thesis
    unfolding verifyHomepageLoaded_def
    by (intro then_io_pure bind_io_pure a b elementExists_pure [OF assms] expectToBe_pure)
qed

lemma funpow_fixed: "f w = w \<Longrightarrow> (f ^^ n) w = w"
  by (induction n) simp_all

text \<open>
  C7. On a fixed page state, that is, when observing the page does not change it, each of
  the three verifications gives the same outcome however often it has been run before:
  after \<open>n\<close> runs of the check, the next run passes or fails as the first one did.
\<close>

theorem verify_loaded_repeatable:
  assumes "observations_pure env"
  shows "fst (verifyHomepageLoaded env (((\<lambda>s. snd (verifyHomepageLoaded env s)) ^^ n) w))
           = fst (verifyHomepageLoaded env w)
         \<and> fst (verifyCartPageLoaded env (((\<lambda>s. snd (verifyCartPageLoaded env s)) ^^ n) w))
           = fst (verifyCartPageLoaded env w)
         \<and> fst (verifyCheckoutPageLoaded env (((\<lambda>s. snd (verifyCheckoutPageLoaded env s)) ^^ n) w))
           = fst (verifyCheckoutPageLoaded env w)"
  by (simp add: funpow_fixed verifyHomepageLoaded_pure [OF assms]
        verifyCartPageLoaded_pure [OF assms] verifyCheckoutPageLoaded_pure [OF assms])

theorem verify_loaded_repeatable_witness:
  "observations_pure static_env
   \<and> fst (verifyHomepageLoaded static_env
           (((\<lambda>s. snd (verifyHomepageLoaded static_env s)) ^^ 3) home_page)) = Inr ()
   \<and> fst (verifyCartPageLoaded static_env
           (((\<lambda>s. snd (verifyCartPageLoaded static_env s)) ^^ 3) (cart_page 0))) = Inr ()
   \<and> fst (verifyCheckoutPageLoaded static_env
           (((\<lambda>s. snd (verifyCheckoutPageLoaded static_env s)) ^^ 3) (cart_page 0))) = Inl ExpectError"
proof -
  have pure: "observations_pure static_env"
    by (simp add: observations_pure_def static_env_def settle_def return_io_def throw_io_def
          split: url_pattern.splits)
  have a: "fst (verifyCartPageLoaded static_env (cart_page 0)) = Inr ()"
    by (simp add: verifyCartPageLoaded_def then_io_apply waitForPageLoad_def run_defs cart_page_def)
  have b: "fst (verifyCheckoutPageLoaded static_env (cart_page 0)) = Inl ExpectError"
    by (simp add: verifyCheckoutPageLoaded_def then_io_apply waitForPageLoad_def run_defs cart_page_def)
  have c: "fst (verifyHomepageLoaded static_env home_page) = Inr ()"
    by code_simp
  from verify_loaded_repeatable [OF pure, of 3 "cart_page 0"]
    verify_loaded_repeatable [OF pure, of 3 home_page] a b c pure
  show ?thesis by simp
qed

section \<open>Exit codes of the runner scripts\<close>
















section \<open>The cart badge\<close>

text \<open>
  C9. \<open>getCartBadgeCount\<close> never fails. It returns 0 when reading the badge text throws,
  when the text is null and when it is empty; otherwise it returns what \<^verbatim>\<open>parseInt\<close> makes
  of the trimmed text.
\<close>

theorem getCartBadgeCount_never_raises:
  "fst (getCartBadgeCount js env w)
     = Inr (case fst (textContent env cartBadge w) of
              Inl e \<Rightarrow> Num 0
            | Inr None \<Rightarrow> Num 0
            | Inr (Some t) \<Rightarrow> if t = [] then Num 0 else parseInt js (trim js t))"
  by (auto simp: getCartBadgeCount_def try_catch_def bind_io_def return_io_def
           split: prod.splits sum.splits option.splits)

theorem getCartBadgeCount_never_raises_witness:
  "fst (getCartBadgeCount ascii_js static_env (blank_page\<lparr>sp_texts := [(cartBadge, Some '' 12 '')]\<rparr>)) = Inr (Num 12)
   \<and> fst (getCartBadgeCount ascii_js static_env (blank_page\<lparr>sp_texts := [(cartBadge, Some '''')]\<rparr>)) = Inr (Num 0)
   \<and> fst (getCartBadgeCount ascii_js static_env (blank_page\<lparr>sp_texts := [(cartBadge, None)]\<rparr>)) = Inr (Num 0)
   \<and> fst (getCartBadgeCount ascii_js static_env blank_page) = Inr (Num 0)
   \<and> fst (getCartBadgeCount ascii_js static_env (blank_page\<lparr>sp_texts := [(cartBadge, Some ''new'')]\<rparr>)) = Inr NaN"
  using getCartBadgeCount_never_raises [of ascii_js static_env "blank_page\<lparr>sp_texts := [(cartBadge, Some '' 12 '')]\<rparr>"]
    getCartBadgeCount_never_raises [of ascii_js static_env "blank_page\<lparr>sp_texts := [(cartBadge, Some '''')]\<rparr>"]
    getCartBadgeCount_never_raises [of ascii_js static_env "blank_page\<lparr>sp_texts := [(cartBadge, None)]\<rparr>"]
    getCartBadgeCount_never_raises [of ascii_js static_env blank_page]
    getCartBadgeCount_never_raises [of ascii_js static_env "blank_page\<lparr>sp_texts := [(cartBadge, Some ''new'')]\<rparr>"]
  by (simp add: run_defs ascii_js_def ascii_trim_def decimal_parseInt_def decimal_value_def
        is_space_def is_digit_def)

section \<open>Retry with back-off\<close>

lemma retry_from_step:
  "retry_from st fn (Finite (of_int m)) b i w =
     (if int i < m then
        (case fn w of
           (Inr x, w1) \<Rightarrow> Some (Inr x, w1)
         | (Inl e, w1) \<Rightarrow>
             if int i = m - 1 then Some (Inl e, w1)
             else retry_from st fn (Finite (of_int m)) b (increment i) (st (js_times b (js_pow2 i)) w1))
      else Some (Inl (JsError ''Max retries exceeded''), w))"
proof -
  have less: "js_less (Finite (real i)) (Finite (of_int m)) = (int i < m)"
    by simp linarith
  have eq: "js_strict_equal (Finite (real i)) (js_minus_one (Finite (of_int m))) = (int i = m - 1)"
    by simp linarith
  show ?thesis
    by (subst retry_from.simps) (simp only: less eq wait_def split: prod.splits sum.splits, simp)
qed

lemma retry_from_returns:
  "js_less (Finite (real i)) m \<Longrightarrow> \<not> isl (fst (fn w))
   \<Longrightarrow> retry_from st fn m b i w = Some (Inr (projr (fst (fn w))), snd (fn w))"
  by (subst retry_from.simps) (auto split: prod.splits sum.splits)

lemma retry_from_rethrows:
  "js_less (Finite (real i)) m \<Longrightarrow> isl (fst (fn w))
   \<Longrightarrow> js_strict_equal (Finite (real i)) (js_minus_one m)
   \<Longrightarrow> retry_from st fn m b i w = Some (Inl (projl (fst (fn w))), snd (fn w))"
  by (subst retry_from.simps) (auto split: prod.splits sum.splits)

lemma retry_from_again:
  "js_less (Finite (real i)) m \<Longrightarrow> isl (fst (fn w))
   \<Longrightarrow> \<not> js_strict_equal (Finite (real i)) (js_minus_one m)
   \<Longrightarrow> retry_from st fn m b i w
       = retry_from st fn m b (increment i) (st (js_times b (js_pow2 i)) (snd (fn w)))"
  by (subst retry_from.simps) (auto simp: wait_def split: prod.splits sum.splits)

lemma retry_from_exceeded:
  "\<not> js_less (Finite (real i)) m
   \<Longrightarrow> retry_from st fn m b i w = Some (Inl (JsError ''Max retries exceeded''), w)"
  by (subst retry_from.simps) simp

lemmas retry_run = retry_def retry_from_returns retry_from_rethrows retry_from_again
  retry_from_exceeded increment_def js_pow2_def overflow_def traced_fn_def traced_timer_def

lemma calls_append: "calls (xs @ ys) = calls xs + calls ys"
  by (induction xs rule: calls.induct) simp_all

lemma calls_backoff: "calls (backoff_trace b i es) = length es"
  by (induction es arbitrary: i) simp_all

lemma retry_from_trace:
  assumes "int i < m" and "m \<le> 2 ^ 53"
  shows "\<exists>es r w'.
           retry_from (traced_timer st) (traced_fn fn) (Finite (of_int m)) b i (w, tr)
             = Some (r, (w', tr @ backoff_trace b i es @ [Called r]))
         \<and> retry_from st fn (Finite (of_int m)) b i w = Some (r, w')
         \<and> int (i + length es) < m
         \<and> (isl r \<longrightarrow> int (i + length es) = m - 1)"
  using assms(1)
proof (induction "nat (m - int i)" arbitrary: i w tr)
  case 0
  then show ?case by simp
next
  case (Suc k)
  obtain r w1 where fw: "fn w = (r, w1)" by (cases "fn w")
  show ?case
  proof (cases r)
    case (Inr x)
    have "retry_from (traced_timer st) (traced_fn fn) (Finite (of_int m)) b i (w, tr)
            = Some (Inr x, (w1, tr @ [Called (Inr x)]))"
      using Suc.prems fw Inr by (subst retry_from_step) (simp add: traced_fn_def)
    moreover have "retry_from st fn (Finite (of_int m)) b i w = Some (Inr x, w1)"
      using Suc.prems fw Inr by (subst retry_from_step) simp
    ultimately show ?thesis
      using Suc.prems by (intro exI [of _ "[]"] exI [of _ "Inr x"] exI [of _ w1]) simp
  next
    case (Inl e)
    show ?thesis
    proof (cases "int i = m - 1")
      case True
      have "retry_from (traced_timer st) (traced_fn fn) (Finite (of_int m)) b i (w, tr)
              = Some (Inl e, (w1, tr @ [Called (Inl e)]))"
        using Suc.prems fw Inl True by (subst retry_from_step) (simp add: traced_fn_def)
      moreover have "retry_from st fn (Finite (of_int m)) b i w = Some (Inl e, w1)"
        using Suc.prems fw Inl True by (subst retry_from_step) simp
      ultimately show ?thesis
        using True by (intro exI [of _ "[]"] exI [of _ "Inl e"] exI [of _ w1]) simp
    next
      case False
      let ?w2 = "st (js_times b (js_pow2 i)) w1"
      let ?tr2 = "tr @ [Called (Inl e), Slept (js_times b (js_pow2 i))]"
      have small: "i < 2 ^ 53"
      proof -
        from Suc.prems assms(2) have "int i < 2 ^ 53" by linarith
        then show ?thesis by (metis of_nat_less_iff of_nat_numeral of_nat_power)
      qed
      then have inc: "increment i = Suc i" by (simp add: increment_def)
      have step: "retry_from (traced_timer st) (traced_fn fn) (Finite (of_int m)) b i (w, tr)
                  = retry_from (traced_timer st) (traced_fn fn) (Finite (of_int m)) b (Suc i) (?w2, ?tr2)"
        using Suc.prems fw Inl False
        by (subst retry_from_step) (simp add: traced_fn_def traced_timer_def inc)
      have step': "retry_from st fn (Finite (of_int m)) b i w
                  = retry_from st fn (Finite (of_int m)) b (Suc i) ?w2"
        using Suc.prems fw Inl False by (subst retry_from_step) (simp add: inc)
      have k: "k = nat (m - int (Suc i))" using Suc.hyps(2) by simp
      have lt: "int (Suc i) < m" using Suc.prems False by simp
      from Suc.hyps(1) [OF k lt, of ?w2 ?tr2]
      obtain es r' w' where es:
        "retry_from (traced_timer st) (traced_fn fn) (Finite (of_int m)) b (Suc i) (?w2, ?tr2)
           = Some (r', (w', ?tr2 @ backoff_trace b (Suc i) es @ [Called r']))"
        "retry_from st fn (Finite (of_int m)) b (Suc i) ?w2 = Some (r', w')"
        "int (Suc i + length es) < m"
        "isl r' \<longrightarrow> int (Suc i + length es) = m - 1"
        by blast
      show ?thesis
        unfolding step step' using es
        by (intro exI [of _ "e # es"] exI [of _ r'] exI [of _ w']) simp
    qed
  qed
qed

text \<open>
  C10, as amended. For every function, every integer \<open>maxRetries\<close> from 1 to \<open>2 ^ 53\<close> and
  every base delay, \<open>retry\<close> returns, and a traced run consists of failed invocations, the
  one numbered \<open>i\<close> (from 0) followed by a timer of \<^verbatim>\<open>baseDelay * Math.pow(2, i)\<close>, and one
  last invocation whose outcome is the outcome of \<open>retry\<close>. The function is invoked at most
  \<open>maxRetries\<close> times. If the outcome is an error, the function was invoked exactly
  \<open>maxRetries\<close> times and the error is that of the last invocation. For a finite base
  delay \<open>d\<close> and \<open>i < 1024\<close> the delay is \<open>d * 2 ^ i\<close>, as long as that is below \<open>2 ^ 1024\<close>
  in absolute value.
\<close>

theorem retry_backoff:
  assumes "maxRetries = Finite (of_int m)" and "1 \<le> m" and "m \<le> 2 ^ 53"
  shows "\<exists>es r w'.
           retry (traced_timer setTimeout) (traced_fn fn) maxRetries baseDelay (w, [])
             = Some (r, (w', backoff_trace baseDelay 0 es @ [Called r]))
         \<and> retry setTimeout fn maxRetries baseDelay w = Some (r, w')
         \<and> int (length es) < m
         \<and> calls (backoff_trace baseDelay 0 es @ [Called r] :: 'a event list) = length es + 1
         \<and> (isl r \<longrightarrow> int (length es) + 1 = m)
         \<and> (\<forall>i d. i < 1024 \<and> \<bar>d * 2 ^ i\<bar> < 2 ^ 1024
                \<longrightarrow> js_times (Finite d) (js_pow2 i) = Finite (d * 2 ^ i))"
proof -
  have lt: "int 0 < m" using assms(2) by simp
  from retry_from_trace [OF lt assms(3), of setTimeout fn baseDelay w "[]"]
  obtain es :: "error list" and r :: "error + 'a" and w' where es:
    "retry_from (traced_timer setTimeout) (traced_fn fn) (Finite (of_int m)) baseDelay 0 (w, [])
       = Some (r, (w', [] @ backoff_trace baseDelay 0 es @ [Called r]))"
    "retry_from setTimeout fn (Finite (of_int m)) baseDelay 0 w = Some (r, w')"
    "int (0 + length es) < m"
    "isl r \<longrightarrow> int (0 + length es) = m - 1"
    by blast
  show ?thesis
    using es assms(1)
    by (intro exI [of _ es] exI [of _ r] exI [of _ w'])
       (auto simp: retry_def calls_append calls_backoff js_pow2_def overflow_def)
qed

theorem retry_backoff_witness:
  "Finite 3 = Finite (of_int 3) \<and> (1::int) \<le> 3 \<and> (3::int) \<le> 2 ^ 53
   \<and> retry (\<lambda>ms k. k) flaky (Finite 3) (Finite 1000) 0 = Some (Inr 2, 3)
   \<and> retry (traced_timer (\<lambda>ms k. k)) (traced_fn flaky) (Finite 3) (Finite 1000) (0, [])
       = Some (Inr 2, (3, [Called (Inl TimeoutError), Slept (Finite 1000),
                           Called (Inl TimeoutError), Slept (Finite 2000), Called (Inr 2)]))
   \<and> retry (\<lambda>ms k. k) always_failing (Finite 3) (Finite 1000) 0 = Some (Inl (JsError ''xx''), 3)
   \<and> calls (snd (snd (the (retry (traced_timer (\<lambda>ms k. k)) (traced_fn always_failing)
                               (Finite 3) (Finite 1000) (0, []))))) = 3"
proof -
  have m: "Finite 3 = Finite (of_int 3)" "(1::int) \<le> 3" "(3::int) \<le> 2 ^ 53" by simp_all
  have r: "retry (\<lambda>ms k. k) flaky (Finite 3) (Finite 1000) 0 = Some (Inr 2, 3)"
    by (simp add: retry_run flaky_def)
  have t: "retry (traced_timer (\<lambda>ms k. k)) (traced_fn flaky) (Finite 3) (Finite 1000) (0, [])
       = Some (Inr 2, (3, [Called (Inl TimeoutError), Slept (Finite 1000),
                           Called (Inl TimeoutError), Slept (Finite 2000), Called (Inr 2)]))"
    by (simp add: retry_run flaky_def)
  have f: "retry (\<lambda>ms k. k) always_failing (Finite 3) (Finite 1000) 0 = Some (Inl (JsError ''xx''), 3)"
    by (simp add: retry_run always_failing_def)
  from retry_backoff [OF m, of "\<lambda>ms k. k" always_failing "Finite 1000" 0]
  obtain es :: "error list" and r' :: "error + nat" and w' where es:
    "retry (traced_timer (\<lambda>ms k. k)) (traced_fn always_failing) (Finite 3) (Finite 1000) (0, [])
       = Some (r', (w', backoff_trace (Finite 1000) 0 es @ [Called r']))"
    "retry (\<lambda>ms k. k) always_failing (Finite 3) (Finite 1000) 0 = Some (r', w')"
    "calls (backoff_trace (Finite 1000) 0 es @ [Called r'] :: nat event list) = length es + 1"
    "isl r' \<longrightarrow> int (length es) + 1 = 3"
    by blast
  from es(2) f have "r' = Inl (JsError ''xx'')" by simp
  with es(4) have "length es = 2" by simp
  with es(1,3) have c: "calls (snd (snd (the (retry (traced_timer (\<lambda>ms k. k)) (traced_fn always_failing)
                               (Finite 3) (Finite 1000) (0, []))))) = 3"
    by simp
  from m r t f c show ?thesis by (intro conjI)
qed

text \<open>
  C10, as stated, fails for a \<open>maxRetries\<close> that is not an integer. With \<open>maxRetries = 2.5\<close>
  and a function that always throws, the function is invoked three times, a timer is set
  after the third failure as well, and the error is \<^verbatim>\<open>Max retries exceeded\<close>, not the error
  of the third invocation.
\<close>

theorem fractional_maxRetries_counterexample:
  "js_less (Finite 1) (Finite (5 / 2))
   \<and> retry (traced_timer (\<lambda>ms k. k)) (traced_fn always_failing) (Finite (5 / 2)) (Finite 1000) (0, [])
       = Some (Inl (JsError ''Max retries exceeded''),
               (3, [Called (Inl (JsError [])), Slept (Finite 1000),
                    Called (Inl (JsError ''x'')), Slept (Finite 2000),
                    Called (Inl (JsError ''xx'')), Slept (Finite 4000)]))
   \<and> \<not> real (calls [Called (Inl (JsError [])) :: nat event, Slept (Finite 1000),
                     Called (Inl (JsError ''x'')), Slept (Finite 2000),
                     Called (Inl (JsError ''xx'')), Slept (Finite 4000)]) \<le> 5 / 2"
  by (simp add: retry_run always_failing_def)

end
